theory Spec2Isabelle
  imports Complex_Main
begin

section \<open>Tensors\<close>

text \<open>
  A single-channel image is a list of rows; a tensor of shape (N, 1, h, w) is the list of
  its N images. A per-sample scalar of shape (N, 1, 1, 1) is a tensor of 1-by-1 images, and
  a 0-dimensional scalar is the tensor with one 1-by-1 image. Values are real or complex
  numbers: rounding of the machine floats is outside this development.
\<close>

type_synonym 'a img = "'a list list"
type_synonym 'a tensor = "'a img list"

datatype error = ShapeError | IndexError | NonFinite

definition width :: "'a img \<Rightarrow> nat" where
  "width x = (case x of [] \<Rightarrow> 0 | r # _ \<Rightarrow> length r)"

definition is_img :: "nat \<Rightarrow> nat \<Rightarrow> 'a img \<Rightarrow> bool" where
  "is_img h w x = (length x = h \<and> list_all (\<lambda>r. length r = w) x)"

definition is_tensor :: "nat \<Rightarrow> nat \<Rightarrow> nat \<Rightarrow> 'a tensor \<Rightarrow> bool" where
  "is_tensor n h w t = (length t = n \<and> list_all (is_img h w) t)"

section \<open>Padding and cropping\<close>

text \<open>
  Modelled from the spec: \<open>pad_double\<close> and \<open>crop_half\<close> are imported from
  \<open>utils.utils_torch\<close>, which does not define them. The spec has \<open>padDouble\<close> zero-pad an
  image, centred, to twice its extent along both axes, and \<open>cropHalf\<close> extract the centred
  half-size region. An odd amount of padding is split floor before, ceiling after, as
  \<open>SubNet.forward\<close> splits its own padding.
\<close>

definition pad_double_img :: "'a::zero img \<Rightarrow> 'a img" where
  "pad_double_img x =
     (let h = length x; w = width x;
          h1 = h div 2; h2 = h - h1;
          w1 = w div 2; w2 = w - w1
      in replicate h1 (replicate (2 * w) 0)
         @ map (\<lambda>r. replicate w1 0 @ r @ replicate w2 0) x
         @ replicate h2 (replicate (2 * w) 0))"

definition crop_half_img :: "'a img \<Rightarrow> 'a img" where
  "crop_half_img x =
     (let h = length x; w = width x
      in map (\<lambda>r. take (w div 2) (drop (w div 4) r)) (take (h div 2) (drop (h div 4) x)))"

definition pad_double :: "'a::zero tensor \<Rightarrow> 'a tensor" where
  "pad_double t = map pad_double_img t"

definition crop_half :: "'a tensor \<Rightarrow> 'a tensor" where
  "crop_half t = map crop_half_img t"

section \<open>Elementwise operations with broadcasting\<close>

text \<open>
  A binary operator of torch on two tensors broadcasts: along each dimension the sizes are
  equal or one of them is 1, and the operand of size 1 is repeated; any other pair of sizes
  raises. A float division by a finite zero does not raise: torch returns the quotient
  tensor, of the broadcast shape, with inf or nan in the bins of the zero divisors. The
  numbers of this development are the reals, which have neither, so \<open>bdiv\<close> records such a
  result as the outcome \<open>NonFinite\<close>: it stands for a returned tensor that holds inf or
  nan, not for a raised exception, and nothing is claimed about what follows it.
\<close>

definition theight :: "'a tensor \<Rightarrow> nat" where
  "theight t = (case t of [] \<Rightarrow> 0 | x # _ \<Rightarrow> length x)"

definition twidth :: "'a tensor \<Rightarrow> nat" where
  "twidth t = (case t of [] \<Rightarrow> 0 | x # _ \<Rightarrow> width x)"

definition bdim :: "nat \<Rightarrow> nat \<Rightarrow> nat option" where
  "bdim m n = (if m = n then Some m else if m = 1 then Some n else if n = 1 then Some m else None)"

definition expand :: "nat \<Rightarrow> 'a list \<Rightarrow> 'a list" where
  "expand n xs = (if length xs = n then xs else replicate n (hd xs))"

definition expand3 :: "nat \<Rightarrow> nat \<Rightarrow> nat \<Rightarrow> 'a tensor \<Rightarrow> 'a tensor" where
  "expand3 n h w t = expand n (map (\<lambda>x. expand h (map (expand w) x)) t)"

definition bop :: "('a \<Rightarrow> 'b \<Rightarrow> 'c) \<Rightarrow> 'a tensor \<Rightarrow> 'b tensor \<Rightarrow> error + 'c tensor" where
  "bop f a b =
     (case bdim (length a) (length b) of
        None \<Rightarrow> Inl ShapeError
      | Some n \<Rightarrow>
         (case bdim (theight a) (theight b) of
            None \<Rightarrow> Inl ShapeError
          | Some h \<Rightarrow>
             (case bdim (twidth a) (twidth b) of
                None \<Rightarrow> Inl ShapeError
              | Some w \<Rightarrow> Inr (map2 (map2 (map2 f)) (expand3 n h w a) (expand3 n h w b)))))"

definition has_zero :: "'a::zero tensor \<Rightarrow> bool" where
  "has_zero t = list_ex (list_ex (list_ex (\<lambda>v. v = 0))) t"

definition bdiv :: "'a::field tensor \<Rightarrow> 'a tensor \<Rightarrow> error + 'a tensor" where
  "bdiv a b =
     (case bop (\<lambda>x y. x / y) a b of
        Inl e \<Rightarrow> Inl e
      | Inr q \<Rightarrow> if has_zero b then Inl NonFinite else Inr q)"

definition tmap :: "('a \<Rightarrow> 'b) \<Rightarrow> 'a tensor \<Rightarrow> 'b tensor" where
  "tmap f t = map (map (map f)) t"

definition zeros_like :: "'a::zero tensor \<Rightarrow> 'a tensor" where
  "zeros_like t = tmap (\<lambda>_. 0) t"

definition maximum :: "real tensor \<Rightarrow> real tensor \<Rightarrow> error + real tensor" where
  "maximum a b = bop max a b"

section \<open>Fourier transforms of torch.fft\<close>

text \<open>
  \<open>ifftshift\<close> rolls each of the last two dimensions by minus half its size (index
  \<open>n div 2\<close> moves to index 0), \<open>fftshift\<close> by plus half its size; \<open>fft2\<close> and \<open>ifft2\<close>
  are the two-dimensional discrete Fourier transform over the last two dimensions and its
  inverse, which divides by the number of elements.
\<close>

definition ifftshift_img :: "'a img \<Rightarrow> 'a img" where
  "ifftshift_img x = rotate (length x div 2) (map (\<lambda>r. rotate (length r div 2) r) x)"

definition fftshift_img :: "'a img \<Rightarrow> 'a img" where
  "fftshift_img x =
     rotate (length x - length x div 2) (map (\<lambda>r. rotate (length r - length r div 2) r) x)"

definition ifftshift :: "'a tensor \<Rightarrow> 'a tensor" where
  "ifftshift t = map ifftshift_img t"

definition fftshift :: "'a tensor \<Rightarrow> 'a tensor" where
  "fftshift t = map fftshift_img t"

definition dft_sum :: "real \<Rightarrow> complex img \<Rightarrow> nat \<Rightarrow> nat \<Rightarrow> complex" where
  "dft_sum s x k l =
     (let h = length x; w = width x
      in (\<Sum>m\<leftarrow>[0..<h]. \<Sum>n\<leftarrow>[0..<w].
            x ! m ! n * cis (s * 2 * pi * (real k * real m / real h + real l * real n / real w))))"

definition fft2_img :: "complex img \<Rightarrow> complex img" where
  "fft2_img x = map (\<lambda>k. map (\<lambda>l. dft_sum (- 1) x k l) [0..<width x]) [0..<length x]"

definition ifft2_img :: "complex img \<Rightarrow> complex img" where
  "ifft2_img x =
     map (\<lambda>k. map (\<lambda>l. dft_sum 1 x k l / of_nat (length x * width x)) [0..<width x])
       [0..<length x]"

definition fft2 :: "complex tensor \<Rightarrow> complex tensor" where
  "fft2 t = map fft2_img t"

definition ifft2 :: "complex tensor \<Rightarrow> complex tensor" where
  "ifft2 t = map ifft2_img t"

section \<open>Layers of torch.nn used by the weight predictor\<close>

text \<open>
  A feature map of one sample is the list of its channels. The parameters of a layer are a
  record, shaped by the constructor of the layer.
\<close>

type_synonym fmap = "real img list"

record conv2d =
  cweight :: "real list list list list"
  cbias :: "real list"

record batchnorm2d =
  bweight :: "real list"
  bbias :: "real list"
  running_mean :: "real list"
  running_var :: "real list"

record linear =
  lweight :: "real list list"
  lbias :: "real list"

definition pix :: "real img \<Rightarrow> int \<Rightarrow> int \<Rightarrow> real" where
  "pix x i j =
     (if 0 \<le> i \<and> i < int (length x) \<and> 0 \<le> j \<and> j < int (width x)
      then x ! nat i ! nat j else 0)"

text \<open>\<open>nn.Conv2d(cin, cout, kernel_size=3, padding=1)\<close> on one sample.\<close>

definition Conv2d :: "conv2d \<Rightarrow> fmap \<Rightarrow> fmap" where
  "Conv2d p x =
     map2 (\<lambda>wo bo.
        map (\<lambda>i. map (\<lambda>j.
            bo + (\<Sum>c\<leftarrow>[0..<length x]. \<Sum>di\<leftarrow>[0..<3]. \<Sum>dj\<leftarrow>[0..<3].
                    wo ! c ! di ! dj * pix (x ! c) (int i + int di - 1) (int j + int dj - 1)))
          [0..<twidth x]) [0..<theight x])
       (cweight p) (cbias p)"

definition mean :: "real list \<Rightarrow> real" where
  "mean vs = sum_list vs / real (length vs)"

definition var_biased :: "real list \<Rightarrow> real" where
  "var_biased vs = sum_list (map (\<lambda>v. (v - mean vs)\<^sup>2) vs) / real (length vs)"

definition chan_values :: "fmap list \<Rightarrow> nat \<Rightarrow> real list" where
  "chan_values xs c = concat (concat (map (\<lambda>s. s ! c) xs))"

text \<open>
  \<open>nn.BatchNorm2d\<close> on a batch, with \<open>eps = 1e-5\<close>. In training mode every channel is
  normalised with the mean and the biased variance of that channel over the whole batch; in
  evaluation mode with the stored running statistics. (Training mode also updates the
  running statistics, which no output of the same call reads.)
\<close>

definition BatchNorm2d :: "bool \<Rightarrow> batchnorm2d \<Rightarrow> fmap list \<Rightarrow> fmap list" where
  "BatchNorm2d training p xs =
     map (\<lambda>s. map (\<lambda>c.
          let mu = (if training then mean (chan_values xs c) else running_mean p ! c);
              var = (if training then var_biased (chan_values xs c) else running_var p ! c)
          in map (map (\<lambda>v. (v - mu) / sqrt (var + 1 / 100000) * (bweight p ! c) + bbias p ! c))
               (s ! c))
        [0..<length s]) xs"

definition ReLU :: "fmap \<Rightarrow> fmap" where
  "ReLU x = tmap (\<lambda>v. max v 0) x"

text \<open>\<open>nn.MaxPool2d(2)\<close> on one sample.\<close>

definition MaxPool2d :: "fmap \<Rightarrow> fmap" where
  "MaxPool2d x =
     map (\<lambda>ch.
        map (\<lambda>i. map (\<lambda>j.
            max (max (ch ! (2 * i) ! (2 * j)) (ch ! (2 * i) ! (2 * j + 1)))
                (max (ch ! (2 * i + 1) ! (2 * j)) (ch ! (2 * i + 1) ! (2 * j + 1))))
          [0..<width ch div 2]) [0..<length ch div 2]) x"

definition Linear :: "linear \<Rightarrow> real list \<Rightarrow> real list" where
  "Linear p x = map2 (\<lambda>w b. sum_list (map2 (*) w x) + b) (lweight p) (lbias p)"

text \<open>
  \<open>nn.Softplus()\<close>, with its defaults \<open>beta = 1\<close> and \<open>threshold = 20\<close>. Over the reals
  the value is positive; in float32 it rounds to 0 for a very negative argument, so only
  \<open>0 \<le> Softplus v\<close>, which both have, is used in what follows.
\<close>

definition Softplus :: "real \<Rightarrow> real" where
  "Softplus v = (if v > 20 then v else ln (1 + exp v))"

text \<open>\<open>F.pad\<close> with constant 0 on the last two dimensions; a negative amount crops.\<close>

definition pad_list :: "int \<Rightarrow> int \<Rightarrow> 'a \<Rightarrow> 'a list \<Rightarrow> 'a list" where
  "pad_list l r z xs =
     (let a = (if 0 \<le> l then replicate (nat l) z @ xs else drop (nat (- l)) xs)
      in if 0 \<le> r then a @ replicate (nat r) z else take (length a - nat (- r)) a)"

definition F_pad :: "int \<Rightarrow> int \<Rightarrow> int \<Rightarrow> int \<Rightarrow> real img \<Rightarrow> real img" where
  "F_pad w1 w2 h1 h2 x =
     pad_list h1 h2 (replicate (nat (int (width x) + w1 + w2)) 0) (map (pad_list w1 w2 0) x)"

section \<open>The weight predictor SubNet\<close>

record DoubleConv =
  conv1 :: conv2d
  bn1 :: batchnorm2d
  conv2 :: conv2d
  bn2 :: batchnorm2d

record SubNet =
  SubNet_n :: nat
  down1 :: DoubleConv
  down2 :: DoubleConv
  down3 :: DoubleConv
  down4 :: DoubleConv
  lin1 :: linear
  lin2 :: linear
  lin3 :: linear

definition DoubleConv_forward :: "bool \<Rightarrow> DoubleConv \<Rightarrow> fmap list \<Rightarrow> fmap list" where
  "DoubleConv_forward training p xs =
     map ReLU (BatchNorm2d training (bn2 p) (map (Conv2d (conv2 p))
       (map ReLU (BatchNorm2d training (bn1 p) (map (Conv2d (conv1 p)) xs)))))"

definition Down_forward :: "bool \<Rightarrow> DoubleConv \<Rightarrow> fmap list \<Rightarrow> fmap list" where
  "Down_forward training p xs = DoubleConv_forward training p (map MaxPool2d xs)"

definition conv_layers :: "bool \<Rightarrow> SubNet \<Rightarrow> fmap list \<Rightarrow> fmap list" where
  "conv_layers training p xs =
     Down_forward training (down4 p) (Down_forward training (down3 p)
       (Down_forward training (down2 p) (Down_forward training (down1 p) xs)))"

definition mlp :: "SubNet \<Rightarrow> real list \<Rightarrow> real list" where
  "mlp p x =
     map Softplus (Linear (lin3 p)
       (map (\<lambda>v. max v 0) (Linear (lin2 p) (map (\<lambda>v. max v 0) (Linear (lin1 p) x)))))"

text \<open>
  \<open>SubNet.forward\<close>. The kernel is padded to 128 by 128, floor before and ceiling after;
  the two \<open>view\<close> calls raise when the number of elements does not fit. The result, of
  shape (N, 1, 1, n), is a tensor of N images with one row of n weights.
\<close>

definition SubNet_forward ::
    "bool \<Rightarrow> SubNet \<Rightarrow> real tensor \<Rightarrow> real tensor \<Rightarrow> error + real tensor" where
  "SubNet_forward training p ker alpha =
     (let N = length ker; h = theight ker; w = twidth ker;
          h1 = (128 - int h) div 2; h2 = (128 - int h + 1) div 2;
          w1 = (128 - int w) div 2; w2 = (128 - int w + 1) div 2;
          k_pad = map (F_pad w1 w2 h1 h2) ker;
          H = fft2 (tmap complex_of_real (ifftshift k_pad));
          HtH = tmap (\<lambda>c. (cmod c)\<^sup>2) H;
          x = conv_layers training p (map (\<lambda>c. [c]) HtH)
      in if \<not> list_all (\<lambda>s. length (concat (concat s)) = 16 * 8 * 8) x then Inl ShapeError
         else if length (concat (concat alpha)) \<noteq> N then Inl ShapeError
         else
           let output = map2 (\<lambda>s a. map (\<lambda>v. v + 1 / 1000000) (mlp p (concat (concat s) @ [a])))
                          x (concat (concat alpha))
           in if list_all (\<lambda>ws. length ws = SubNet_n p) output
              then Inr (map (\<lambda>ws. [ws]) output) else Inl ShapeError)"

section \<open>The unrolled ADMM model\<close>

text \<open>
  The module \<open>Unrolled_ADMM_Gaussian\<close>: its iteration count, its two flags, the weight
  predictor \<open>init\<close> (used when \<open>subnet\<close> holds), the learned constants \<open>rho_iters\<close>
  (used otherwise) and the denoiser network of \<open>Z_Update_ResUNet\<close>, whose class
  \<open>ResUNet\<close> is outside the sources and is taken as a function on batches. \<open>training\<close> is
  the mode flag every torch module carries; a new module is in training mode.
\<close>

record Unrolled_ADMM_Gaussian =
  n_iters :: nat
  subnet :: bool
  training :: bool
  init :: SubNet
  rho_iters :: "real list"
  Z_net :: "real tensor \<Rightarrow> real tensor"

text \<open>The constants the constructor creates when \<open>subnet\<close> is off: \<open>torch.ones\<close>.\<close>

definition new_rho_iters :: "nat \<Rightarrow> real list" where
  "new_rho_iters n = replicate n 1"

definition Z_Update_ResUNet_forward :: "Unrolled_ADMM_Gaussian \<Rightarrow> real tensor \<Rightarrow> real tensor" where
  "Z_Update_ResUNet_forward m z = Z_net m z"

definition X_Update_Gaussian_forward ::
    "complex tensor \<Rightarrow> complex tensor \<Rightarrow> real tensor \<Rightarrow> real tensor \<Rightarrow> real tensor \<Rightarrow> real tensor
     \<Rightarrow> error + real tensor" where
  "X_Update_Gaussian_forward Y Ht HtH z u rho =
     (case bop (+) rho HtH of Inl e \<Rightarrow> Inl e | Inr lhs \<Rightarrow>
      case bop (*) Ht Y of Inl e \<Rightarrow> Inl e | Inr hy \<Rightarrow>
      case bop (*) rho z of Inl e \<Rightarrow> Inl e | Inr rz \<Rightarrow>
      case bop (-) rz u of Inl e \<Rightarrow> Inl e | Inr d \<Rightarrow>
      case bop (+) hy (fft2 (tmap complex_of_real (ifftshift (pad_double d)))) of
        Inl e \<Rightarrow> Inl e | Inr rhs \<Rightarrow>
      case bdiv rhs (tmap complex_of_real lhs) of Inl e \<Rightarrow> Inl e | Inr q \<Rightarrow>
      Inr (crop_half (tmap Re (fftshift (ifft2 q)))))"

text \<open>
  \<open>init_l2\<close>, lines 112 to 117. Its denominator is \<open>HtH + (1/alpha)\<close>, and \<open>alpha\<close> is an
  input that nothing checks, so the reciprocal is taken with the infinity of the floats:
  \<open>1/0\<close> is \<open>inf\<close> (the zero of a noise level is the positive zero), a sum with \<open>inf\<close> is
  \<open>inf\<close>, and a finite number divided by \<open>inf\<close> is 0. A denominator bin that is the finite
  zero is recorded as \<open>NonFinite\<close>, as in \<open>bdiv\<close>.
\<close>

datatype xreal = Finite real | Infinity

definition recip :: "real \<Rightarrow> xreal" where
  "recip a = (if a = 0 then Infinity else Finite (1 / a))"

definition xadd :: "real \<Rightarrow> xreal \<Rightarrow> xreal" where
  "xadd v d = (case d of Finite r \<Rightarrow> Finite (v + r) | Infinity \<Rightarrow> Infinity)"

definition cdivx :: "complex \<Rightarrow> xreal \<Rightarrow> complex" where
  "cdivx c d = (case d of Finite r \<Rightarrow> c / complex_of_real r | Infinity \<Rightarrow> 0)"

definition bdivx :: "complex tensor \<Rightarrow> xreal tensor \<Rightarrow> error + complex tensor" where
  "bdivx a b =
     (case bop cdivx a b of
        Inl e \<Rightarrow> Inl e
      | Inr q \<Rightarrow> if list_ex (list_ex (list_ex (\<lambda>d. d = Finite 0))) b then Inl NonFinite else Inr q)"

definition init_l2_lhs :: "real tensor \<Rightarrow> real tensor \<Rightarrow> error + xreal tensor" where
  "init_l2_lhs HtH alpha = bop xadd HtH (tmap recip alpha)"

definition init_l2 ::
    "complex tensor \<Rightarrow> complex tensor \<Rightarrow> real tensor \<Rightarrow> real tensor \<Rightarrow> error + real tensor" where
  "init_l2 Y Ht HtH alpha =
     (case bop (*) Y Ht of Inl e \<Rightarrow> Inl e | Inr rhs \<Rightarrow>
      case init_l2_lhs HtH alpha of Inl e \<Rightarrow> Inl e | Inr lhs \<Rightarrow>
      case bdivx rhs lhs of Inl e \<Rightarrow> Inl e | Inr q \<Rightarrow>
      Inr (crop_half (tmap Re (fftshift (ifft2 q)))))"

text \<open>
  The weight of iteration \<open>i\<close>: \<open>rho_iters[:,:,:,i].view(-1,1,1,1)\<close> of the predicted
  schedule, or the 0-dimensional \<open>self.rho_iters[i]\<close>.
\<close>

definition select_rho :: "Unrolled_ADMM_Gaussian \<Rightarrow> real tensor \<Rightarrow> nat \<Rightarrow> error + real tensor" where
  "select_rho m rho_pred i =
     (if subnet m
      then (if i < twidth rho_pred then Inr (map (\<lambda>s. [[s ! 0 ! i]]) rho_pred) else Inl IndexError)
      else (if i < length (rho_iters m) then Inr [[[rho_iters m ! i]]] else Inl IndexError))"

text \<open>One pass of the loop body: it gives the new \<open>x\<close>, \<open>z\<close> and \<open>u\<close>.\<close>

definition admm_step ::
    "Unrolled_ADMM_Gaussian \<Rightarrow> complex tensor \<Rightarrow> complex tensor \<Rightarrow> real tensor \<Rightarrow> real tensor
     \<Rightarrow> nat \<Rightarrow> real tensor \<times> real tensor \<Rightarrow> error + (real tensor \<times> real tensor \<times> real tensor)" where
  "admm_step m Y Ht HtH rho_pred i zu =
     (case select_rho m rho_pred i of Inl e \<Rightarrow> Inl e | Inr rho \<Rightarrow>
      case X_Update_Gaussian_forward Y Ht HtH (fst zu) (snd zu) rho of Inl e \<Rightarrow> Inl e | Inr x \<Rightarrow>
      let z = Z_Update_ResUNet_forward m x in
      case bop (+) (snd zu) x of Inl e \<Rightarrow> Inl e | Inr ux \<Rightarrow>
      case bop (-) ux z of Inl e \<Rightarrow> Inl e | Inr u \<Rightarrow>
      Inr (x, z, u))"

text \<open>The loop \<open>for i in range(self.n_iters)\<close>, on the state \<open>(z, u, x_list)\<close>.\<close>

fun admm_loop ::
    "Unrolled_ADMM_Gaussian \<Rightarrow> complex tensor \<Rightarrow> complex tensor \<Rightarrow> real tensor \<Rightarrow> real tensor
     \<Rightarrow> nat list \<Rightarrow> real tensor \<times> real tensor \<times> real tensor list
     \<Rightarrow> error + (real tensor \<times> real tensor \<times> real tensor list)" where
  "admm_loop m Y Ht HtH rho_pred [] st = Inr st"
| "admm_loop m Y Ht HtH rho_pred (i # ns) (z, u, x_list) =
     (case admm_step m Y Ht HtH rho_pred i (z, u) of
        Inl e \<Rightarrow> Inl e
      | Inr (x, z', u') \<Rightarrow> admm_loop m Y Ht HtH rho_pred ns (z', u', x_list @ [z']))"

text \<open>
  The set-up of \<open>forward\<close>, lines 120 to 134: the clamped image, the spectra, the predicted
  schedule (empty when \<open>subnet\<close> is off), the warm start and the zero dual variable.
\<close>

record admm_setup =
  s_y :: "real tensor"
  s_Y :: "complex tensor"
  s_Ht :: "complex tensor"
  s_HtH :: "real tensor"
  s_rho :: "real tensor"
  s_z :: "real tensor"
  s_u :: "real tensor"

definition forward_setup ::
    "Unrolled_ADMM_Gaussian \<Rightarrow> real tensor \<Rightarrow> real tensor \<Rightarrow> real tensor \<Rightarrow> error + admm_setup" where
  "forward_setup m y0 ker alpha =
     (case maximum y0 (zeros_like y0) of Inl e \<Rightarrow> Inl e | Inr y \<Rightarrow>
      let Y = fft2 (tmap complex_of_real (ifftshift (pad_double y)));
          H = fft2 (tmap complex_of_real (ifftshift (pad_double ker)));
          Ht = tmap cnj H;
          HtH = tmap (\<lambda>c. (cmod c)\<^sup>2) H
      in case (if subnet m then SubNet_forward (training m) (init m) ker alpha else Inr []) of
           Inl e \<Rightarrow> Inl e | Inr rho_pred \<Rightarrow>
         case init_l2 Y Ht HtH alpha of Inl e \<Rightarrow> Inl e | Inr z \<Rightarrow>
         Inr \<lparr>s_y = y, s_Y = Y, s_Ht = Ht, s_HtH = HtH, s_rho = rho_pred, s_z = z,
              s_u = zeros_like y\<rparr>)"

definition forward ::
    "Unrolled_ADMM_Gaussian \<Rightarrow> real tensor \<Rightarrow> real tensor \<Rightarrow> real tensor \<Rightarrow> error + real tensor" where
  "forward m y0 ker alpha =
     (case forward_setup m y0 ker alpha of Inl e \<Rightarrow> Inl e | Inr s \<Rightarrow>
      case admm_loop m (s_Y s) (s_Ht s) (s_HtH s) (s_rho s) [0..<n_iters m] (s_z s, s_u s, []) of
        Inl e \<Rightarrow> Inl e
      | Inr (z, u, x_list) \<Rightarrow> (if x_list = [] then Inl IndexError else Inr (last x_list)))"

definition all_elems :: "('a \<Rightarrow> bool) \<Rightarrow> 'a tensor \<Rightarrow> bool" where
  "all_elems P t = list_all (list_all (list_all P)) t"

section \<open>The solve of the specification on one image\<close>

text \<open>
  The closed-form solve as section 4.2 of the specification words it, on one image and with
  a scalar weight: the numerator is \<open>Ht * Y + FFT(shift(padDouble(rho * z - u)))\<close>, the
  denominator \<open>rho + HtH\<close>, and the result the centred half of the real part of the
  inverse-shifted inverse transform of their quotient. \<open>scalar_at r b\<close> is the entry that a
  tensor of shape (n, 1, 1, 1), or a 0-dimensional one, contributes to batch element \<open>b\<close>.
\<close>

definition scalar_at :: "'a tensor \<Rightarrow> nat \<Rightarrow> 'a" where
  "scalar_at r b = (if length r = 1 then r ! 0 ! 0 ! 0 else r ! b ! 0 ! 0)"

definition solve_img ::
    "complex img \<Rightarrow> complex img \<Rightarrow> real img \<Rightarrow> real img \<Rightarrow> real img \<Rightarrow> real \<Rightarrow> real img" where
  "solve_img Y Ht HtH z u rho =
     (let numerator =
            map2 (map2 (+)) (map2 (map2 (*)) Ht Y)
              (fft2_img (map (map complex_of_real)
                 (ifftshift_img (pad_double_img (map2 (map2 (-)) (map (map (\<lambda>v. rho * v)) z) u)))));
          denominator = map (map (\<lambda>v. complex_of_real (rho + v))) HtH
      in crop_half_img (map (map Re) (fftshift_img (ifft2_img
           (map2 (map2 (/)) numerator denominator)))))"

section \<open>Parameter shapes\<close>

text \<open>
  The shapes the constructors give the parameters: \<open>nn.Conv2d(cin, cout, 3)\<close> has a weight
  of shape (cout, cin, 3, 3) and a bias of length cout, \<open>nn.BatchNorm2d(c)\<close> four vectors of
  length c, \<open>nn.Linear(cin, cout)\<close> a weight of shape (cout, cin) and a bias of length cout.
  \<open>SubNet(n)\<close> stacks \<open>Down(1,4)\<close>, \<open>Down(4,8)\<close>, \<open>Down(8,16)\<close>, \<open>Down(16,16)\<close> and
  the linear layers 1025 to 64, 64 to 64, 64 to n; \<open>Unrolled_ADMM_Gaussian\<close> builds
  \<open>SubNet(n_iters)\<close> or \<open>n_iters\<close> constants.
\<close>

definition wf_conv2d :: "nat \<Rightarrow> nat \<Rightarrow> conv2d \<Rightarrow> bool" where
  "wf_conv2d cin cout p =
     (length (cweight p) = cout \<and> length (cbias p) = cout \<and>
      list_all (\<lambda>wo. length wo = cin \<and>
                 list_all (\<lambda>k. length k = 3 \<and> list_all (\<lambda>r. length r = 3) k) wo) (cweight p))"

definition wf_batchnorm2d :: "nat \<Rightarrow> batchnorm2d \<Rightarrow> bool" where
  "wf_batchnorm2d c p =
     (length (bweight p) = c \<and> length (bbias p) = c \<and>
      length (running_mean p) = c \<and> length (running_var p) = c)"

definition wf_linear :: "nat \<Rightarrow> nat \<Rightarrow> linear \<Rightarrow> bool" where
  "wf_linear cin cout p =
     (length (lweight p) = cout \<and> length (lbias p) = cout \<and>
      list_all (\<lambda>r. length r = cin) (lweight p))"

definition wf_DoubleConv :: "nat \<Rightarrow> nat \<Rightarrow> DoubleConv \<Rightarrow> bool" where
  "wf_DoubleConv cin cout p =
     (wf_conv2d cin cout (conv1 p) \<and> wf_batchnorm2d cout (bn1 p) \<and>
      wf_conv2d cout cout (conv2 p) \<and> wf_batchnorm2d cout (bn2 p))"

definition wf_SubNet :: "SubNet \<Rightarrow> bool" where
  "wf_SubNet p =
     (wf_DoubleConv 1 4 (down1 p) \<and> wf_DoubleConv 4 8 (down2 p) \<and>
      wf_DoubleConv 8 16 (down3 p) \<and> wf_DoubleConv 16 16 (down4 p) \<and>
      wf_linear (16 * 8 * 8 + 1) 64 (lin1 p) \<and> wf_linear 64 64 (lin2 p) \<and>
      wf_linear 64 (SubNet_n p) (lin3 p))"

definition wf_model :: "Unrolled_ADMM_Gaussian \<Rightarrow> bool" where
  "wf_model m =
     (if subnet m then wf_SubNet (init m) \<and> SubNet_n (init m) = n_iters m
      else length (rho_iters m) = n_iters m)"

definition is_fbatch :: "nat \<Rightarrow> nat \<Rightarrow> nat \<Rightarrow> nat \<Rightarrow> fmap list \<Rightarrow> bool" where
  "is_fbatch n c h w xs = (length xs = n \<and> list_all (is_tensor c h w) xs)"

section \<open>Concrete parameters\<close>

text \<open>
  Parameter values on which the model is run below. The convolutions and the linear layers
  pass their first input channel (feature) to their first output and give 0 elsewhere; the
  batch normalisations have the values their constructor gives them (weight 1, bias 0,
  running mean 0, running variance 1); the denoiser is the identity; \<open>rho_iters\<close> is as
  constructed.
\<close>

definition probe_conv2d :: "nat \<Rightarrow> nat \<Rightarrow> conv2d" where
  "probe_conv2d cin cout =
     \<lparr>cweight = map (\<lambda>k. map (\<lambda>c. if k = 0 \<and> c = 0 then [[0, 0, 0], [0, 1, 0], [0, 0, 0]]
                                   else [[0, 0, 0], [0, 0, 0], [0, 0, 0]]) [0..<cin]) [0..<cout],
      cbias = replicate cout 0\<rparr>"

definition default_batchnorm2d :: "nat \<Rightarrow> batchnorm2d" where
  "default_batchnorm2d c =
     \<lparr>bweight = replicate c 1, bbias = replicate c 0,
      running_mean = replicate c 0, running_var = replicate c 1\<rparr>"

definition probe_linear :: "nat \<Rightarrow> nat \<Rightarrow> linear" where
  "probe_linear cin cout =
     \<lparr>lweight = map (\<lambda>k. map (\<lambda>c. if k = 0 \<and> c = 0 then 1 else 0) [0..<cin]) [0..<cout],
      lbias = replicate cout 0\<rparr>"

definition probe_DoubleConv :: "nat \<Rightarrow> nat \<Rightarrow> DoubleConv" where
  "probe_DoubleConv cin cout =
     \<lparr>conv1 = probe_conv2d cin cout, bn1 = default_batchnorm2d cout,
      conv2 = probe_conv2d cout cout, bn2 = default_batchnorm2d cout\<rparr>"

definition probe_SubNet :: "nat \<Rightarrow> SubNet" where
  "probe_SubNet n =
     \<lparr>SubNet_n = n,
      down1 = probe_DoubleConv 1 4, down2 = probe_DoubleConv 4 8,
      down3 = probe_DoubleConv 8 16, down4 = probe_DoubleConv 16 16,
      lin1 = probe_linear (16 * 8 * 8 + 1) 64, lin2 = probe_linear 64 64,
      lin3 = probe_linear 64 n\<rparr>"

definition probe_model :: "nat \<Rightarrow> bool \<Rightarrow> bool \<Rightarrow> Unrolled_ADMM_Gaussian" where
  "probe_model n sub tr =
     \<lparr>n_iters = n, subnet = sub, training = tr, init = probe_SubNet n,
      rho_iters = new_rho_iters n, Z_net = (\<lambda>x. x)\<rparr>"

text \<open>
  Images on which the layers are run below: the constant image, the image that is \<open>c\<close> at
  index (0, 0) and 0 elsewhere, and the feature map whose first channel is constant and
  whose other channels are 0.
\<close>

definition const_img :: "nat \<Rightarrow> nat \<Rightarrow> 'a \<Rightarrow> 'a img" where
  "const_img h w c = replicate h (replicate w c)"

definition delta_img :: "nat \<Rightarrow> nat \<Rightarrow> 'a::zero \<Rightarrow> 'a img" where
  "delta_img h w c = (c # replicate (w - 1) 0) # replicate (h - 1) (replicate w 0)"

definition const_fmap :: "nat \<Rightarrow> nat \<Rightarrow> nat \<Rightarrow> real \<Rightarrow> fmap" where
  "const_fmap C h w c = const_img h w c # replicate (C - 1) (const_img h w 0)"

section \<open>Shapes\<close>

lemma is_img_length: "is_img h w x \<Longrightarrow> length x = h"
  by (simp add: is_img_def)

lemma is_img_row: "is_img h w x \<Longrightarrow> r \<in> set x \<Longrightarrow> length r = w"
  by (simp add: is_img_def list_all_iff)

lemma is_img_width: "is_img h w x \<Longrightarrow> 0 < h \<Longrightarrow> width x = w"
  by (cases x) (simp_all add: is_img_def width_def)

lemma is_img_intro: "length x = h \<Longrightarrow> (\<And>r. r \<in> set x \<Longrightarrow> length r = w) \<Longrightarrow> is_img h w x"
  by (simp add: is_img_def list_all_iff)

lemma is_tensor_length: "is_tensor n h w t \<Longrightarrow> length t = n"
  by (simp add: is_tensor_def)

lemma is_tensor_img: "is_tensor n h w t \<Longrightarrow> x \<in> set t \<Longrightarrow> is_img h w x"
  by (simp add: is_tensor_def list_all_iff)

lemma is_tensor_intro:
  "length t = n \<Longrightarrow> (\<And>x. x \<in> set t \<Longrightarrow> is_img h w x) \<Longrightarrow> is_tensor n h w t"
  by (simp add: is_tensor_def list_all_iff)

lemma pad_double_img_shape:
  assumes "is_img h w x"
  shows "is_img (2 * h) (2 * w) (pad_double_img x)"
proof (cases "h = 0")
  case True
  with assms show ?thesis by (simp add: is_img_def pad_double_img_def)
next
  case False
  with assms have w: "width x = w" by (simp add: is_img_width)
  from assms have l: "length x = h" and r: "\<And>r. r \<in> set x \<Longrightarrow> length r = w"
    by (auto simp: is_img_def list_all_iff)
  show ?thesis
    by (rule is_img_intro) (auto simp: pad_double_img_def Let_def w l r)
qed

lemma crop_pad_img:
  assumes "is_img h w x"
  shows "crop_half_img (pad_double_img x) = x"
proof (cases "h = 0")
  case True
  with assms show ?thesis by (simp add: is_img_def pad_double_img_def crop_half_img_def)
next
  case False
  with assms have w: "width x = w" by (simp add: is_img_width)
  from assms have l: "length x = h" and r: "\<And>r. r \<in> set x \<Longrightarrow> length r = w"
    by (auto simp: is_img_def list_all_iff)
  have p: "is_img (2 * h) (2 * w) (pad_double_img x)"
    using assms by (rule pad_double_img_shape)
  from p have pl: "length (pad_double_img x) = 2 * h" by (rule is_img_length)
  from p False have pw: "width (pad_double_img x) = 2 * w" by (simp add: is_img_width)
  have rows: "take h (drop (h div 2) (pad_double_img x))
              = map (\<lambda>r. replicate (w div 2) 0 @ r @ replicate (w - w div 2) 0) x"
    by (simp add: pad_double_img_def Let_def w l)
  have "crop_half_img (pad_double_img x)
        = map (\<lambda>r. take w (drop (w div 2) r)) (take h (drop (h div 2) (pad_double_img x)))"
    by (simp add: crop_half_img_def Let_def pl pw)
  also have "\<dots> = map (\<lambda>r. take w (drop (w div 2) (replicate (w div 2) 0 @ r @ replicate (w - w div 2) 0))) x"
    by (simp add: rows comp_def)
  also have "\<dots> = map (\<lambda>r. r) x"
    by (rule map_cong) (simp_all add: r)
  finally show ?thesis by simp
qed

lemma is_img_Nil: "is_img h w [] = (h = 0)"
  by (auto simp: is_img_def)

lemma is_img_map:
  "is_img h w x \<Longrightarrow> (\<And>r. r \<in> set x \<Longrightarrow> length (g r) = w') \<Longrightarrow> is_img h w' (map g x)"
  by (auto simp: is_img_def list_all_iff)

lemma is_tensor_map:
  "is_tensor n h w t \<Longrightarrow> (\<And>x. x \<in> set t \<Longrightarrow> is_img h w x \<Longrightarrow> is_img h' w' (g x))
   \<Longrightarrow> is_tensor n h' w' (map g t)"
  by (auto simp: is_tensor_def list_all_iff)

lemma tmap_img_shape: "is_img h w x \<Longrightarrow> is_img h w (map (map f) x)"
  by (auto simp: is_img_def list_all_iff)

lemma tmap_shape: "is_tensor n h w t \<Longrightarrow> is_tensor n h w (tmap f t)"
  unfolding tmap_def by (rule is_tensor_map) (auto intro: tmap_img_shape)

lemma zeros_like_shape: "is_tensor n h w t \<Longrightarrow> is_tensor n h w (zeros_like t)"
  by (simp add: zeros_like_def tmap_shape)

lemma ifftshift_img_shape: "is_img h w x \<Longrightarrow> is_img h w (ifftshift_img x)"
  by (auto simp: is_img_def list_all_iff ifftshift_img_def)

lemma fftshift_img_shape: "is_img h w x \<Longrightarrow> is_img h w (fftshift_img x)"
  by (auto simp: is_img_def list_all_iff fftshift_img_def)

lemma ifftshift_shape: "is_tensor n h w t \<Longrightarrow> is_tensor n h w (ifftshift t)"
  unfolding ifftshift_def by (rule is_tensor_map) (auto intro: ifftshift_img_shape)

lemma fftshift_shape: "is_tensor n h w t \<Longrightarrow> is_tensor n h w (fftshift t)"
  unfolding fftshift_def by (rule is_tensor_map) (auto intro: fftshift_img_shape)

lemma fft2_img_shape:
  assumes "is_img h w x"
  shows "is_img h w (fft2_img x)"
proof (cases "h = 0")
  case True
  with assms show ?thesis by (simp add: is_img_def fft2_img_def)
next
  case False
  with assms have "width x = w" by (simp add: is_img_width)
  with assms show ?thesis by (simp add: is_img_def fft2_img_def list_all_iff)
qed

lemma ifft2_img_shape:
  assumes "is_img h w x"
  shows "is_img h w (ifft2_img x)"
proof (cases "h = 0")
  case True
  with assms show ?thesis by (simp add: is_img_def ifft2_img_def)
next
  case False
  with assms have "width x = w" by (simp add: is_img_width)
  with assms show ?thesis by (simp add: is_img_def ifft2_img_def list_all_iff)
qed

lemma fft2_shape: "is_tensor n h w t \<Longrightarrow> is_tensor n h w (fft2 t)"
  unfolding fft2_def by (rule is_tensor_map) (auto intro: fft2_img_shape)

lemma ifft2_shape: "is_tensor n h w t \<Longrightarrow> is_tensor n h w (ifft2 t)"
  unfolding ifft2_def by (rule is_tensor_map) (auto intro: ifft2_img_shape)

lemma pad_double_shape: "is_tensor n h w t \<Longrightarrow> is_tensor n (2 * h) (2 * w) (pad_double t)"
  unfolding pad_double_def by (rule is_tensor_map) (auto intro: pad_double_img_shape)

lemma crop_half_img_shape:
  assumes "is_img (2 * h) (2 * w) x"
  shows "is_img h w (crop_half_img x)"
proof (cases "h = 0")
  case True
  with assms show ?thesis by (simp add: is_img_def crop_half_img_def)
next
  case False
  with assms have w: "width x = 2 * w" by (simp add: is_img_width)
  from assms have l: "length x = 2 * h" and r: "\<And>r. r \<in> set x \<Longrightarrow> length r = 2 * w"
    by (auto simp: is_img_def list_all_iff)
  show ?thesis
  proof (rule is_img_intro)
    show "length (crop_half_img x) = h"
      by (simp add: crop_half_img_def Let_def l) 
  next
    fix q assume "q \<in> set (crop_half_img x)"
    then obtain p where "p \<in> set x" and "q = take w (drop (2 * w div 4) p)"
      by (auto simp: crop_half_img_def Let_def w dest!: in_set_takeD in_set_dropD)
    then show "length q = w" by (simp add: r) 
  qed
qed

lemma crop_half_shape: "is_tensor n (2 * h) (2 * w) t \<Longrightarrow> is_tensor n h w (crop_half t)"
  unfolding crop_half_def by (rule is_tensor_map) (auto intro: crop_half_img_shape)

lemma theight_tensor: "is_tensor n h w t \<Longrightarrow> 0 < n \<Longrightarrow> theight t = h"
  by (cases t) (auto simp: is_tensor_def theight_def is_img_def)

lemma twidth_tensor: "is_tensor n h w t \<Longrightarrow> 0 < n \<Longrightarrow> 0 < h \<Longrightarrow> twidth t = w"
  by (cases t) (auto simp: is_tensor_def twidth_def is_img_width)

text \<open>
  C3. Cropping the centred half of a doubled image gives the image back, for every
  rectangular image and every batch of such images.
\<close>

theorem crop_half_pad_double:
  "is_tensor n h w t \<Longrightarrow> crop_half (pad_double t) = t"
proof -
  assume t: "is_tensor n h w t"
  have "map (\<lambda>x. crop_half_img (pad_double_img x)) t = t"
    by (rule map_idI) (rule crop_pad_img, rule is_tensor_img [OF t])
  then show ?thesis by (simp add: crop_half_def pad_double_def comp_def)
qed

theorem crop_half_pad_double_witness:
  "is_tensor 1 3 2 [[[1, 2], [3, 4], [5, 6::real]]]
   \<and> crop_half (pad_double [[[1, 2], [3, 4], [5, 6::real]]]) = [[[1, 2], [3, 4], [5, 6]]]"
  using crop_half_pad_double [of 1 3 2 "[[[1, 2], [3, 4], [5, 6::real]]]"]
  by (simp add: is_tensor_def is_img_def)

lemma bdim_Some: "bdim a b = Some n \<Longrightarrow> (a = n \<or> a = 1) \<and> (b = n \<or> b = 1)"
  by (auto simp: bdim_def split: if_splits)

lemma length_expand: "length xs = n \<or> length xs = 1 \<Longrightarrow> length (expand n xs) = n"
  by (auto simp: expand_def)

lemma set_expand: "length xs = n \<or> length xs = 1 \<Longrightarrow> set (expand n xs) \<subseteq> set xs"
  by (cases xs) (auto simp: expand_def)

lemma expand_same: "length xs = n \<Longrightarrow> expand n xs = xs"
  by (simp add: expand_def)

lemma expand_row_img:
  assumes "is_img ha wa x" and "ha = h \<or> ha = 1" and "wa = w \<or> wa = 1"
  shows "is_img h w (expand h (map (expand w) x))"
proof (rule is_img_intro)
  from assms show "length (expand h (map (expand w) x)) = h"
    by (intro length_expand) (auto simp: is_img_def)
next
  fix r assume "r \<in> set (expand h (map (expand w) x))"
  moreover have "set (expand h (map (expand w) x)) \<subseteq> set (map (expand w) x)"
    using assms by (intro set_expand) (auto simp: is_img_def)
  ultimately obtain q where q: "q \<in> set x" and r: "r = expand w q" by auto
  from q assms have "length q = wa" by (simp add: is_img_row)
  with assms r show "length r = w" by (auto simp: length_expand)
qed

lemma expand3_shape:
  assumes "is_tensor na ha wa a" and "na = n \<or> na = 1" and "ha = h \<or> ha = 1" and "wa = w \<or> wa = 1"
  shows "is_tensor n h w (expand3 n h w a)"
proof (rule is_tensor_intro)
  from assms show "length (expand3 n h w a) = n"
    unfolding expand3_def by (intro length_expand) (auto simp: is_tensor_def)
next
  fix x assume "x \<in> set (expand3 n h w a)"
  moreover have "set (expand3 n h w a) \<subseteq> set (map (\<lambda>x. expand h (map (expand w) x)) a)"
    unfolding expand3_def using assms by (intro set_expand) (auto simp: is_tensor_def)
  ultimately obtain y where y: "y \<in> set a" and x: "x = expand h (map (expand w) y)" by auto
  from y assms have "is_img ha wa y" by (simp add: is_tensor_img)
  with assms x show "is_img h w x" by (simp add: expand_row_img)
qed

lemma all_elems_iff: "all_elems P t = (\<forall>x\<in>set t. \<forall>r\<in>set x. \<forall>v\<in>set r. P v)"
  by (simp add: all_elems_def list_all_iff)

lemma all_elems_expand3:
  assumes "is_tensor na ha wa a" and "na = n \<or> na = 1" and "ha = h \<or> ha = 1" and "wa = w \<or> wa = 1"
    and "all_elems P a"
  shows "all_elems P (expand3 n h w a)"
  unfolding all_elems_iff
proof (intro ballI)
  fix x r v assume x: "x \<in> set (expand3 n h w a)" and r: "r \<in> set x" and v: "v \<in> set r"
  have "set (expand3 n h w a) \<subseteq> set (map (\<lambda>x. expand h (map (expand w) x)) a)"
    unfolding expand3_def using assms by (intro set_expand) (auto simp: is_tensor_def)
  with x obtain y where y: "y \<in> set a" and xe: "x = expand h (map (expand w) y)" by auto
  from y assms have yi: "is_img ha wa y" by (simp add: is_tensor_img)
  have "set (expand h (map (expand w) y)) \<subseteq> set (map (expand w) y)"
    using assms yi by (intro set_expand) (auto simp: is_img_def)
  with r xe obtain q where q: "q \<in> set y" and re: "r = expand w q" by auto
  from q yi have "length q = wa" by (simp add: is_img_row)
  then have "set (expand w q) \<subseteq> set q" using assms by (intro set_expand) auto
  with v re have "v \<in> set q" by auto
  with q y assms show "P v" by (auto simp: all_elems_iff)
qed

lemma tzip_shape:
  assumes "is_tensor n h w a" and "is_tensor n h w b"
  shows "is_tensor n h w (map2 (map2 (map2 f)) a b)"
proof (rule is_tensor_intro)
  from assms show "length (map2 (map2 (map2 f)) a b) = n" by (simp add: is_tensor_def)
next
  fix x assume "x \<in> set (map2 (map2 (map2 f)) a b)"
  then obtain p q where pq: "(p, q) \<in> set (zip a b)" and x: "x = map2 (map2 f) p q" by auto
  from pq have "p \<in> set a" "q \<in> set b" by (auto dest: set_zip_leftD set_zip_rightD)
  with assms have p: "is_img h w p" and q: "is_img h w q" by (auto simp: is_tensor_img)
  show "is_img h w x"
  proof (rule is_img_intro)
    from p q x show "length x = h" by (simp add: is_img_def)
  next
    fix r assume "r \<in> set x"
    with x obtain s t where st: "(s, t) \<in> set (zip p q)" and r: "r = map2 f s t" by auto
    from st have "s \<in> set p" "t \<in> set q" by (auto dest: set_zip_leftD set_zip_rightD)
    with p q have "length s = w" "length t = w" by (auto simp: is_img_row)
    with r show "length r = w" by simp
  qed
qed

lemma tzip_elems:
  assumes "all_elems P a" and "all_elems Q b" and "\<And>x y. P x \<Longrightarrow> Q y \<Longrightarrow> R (f x y)"
  shows "all_elems R (map2 (map2 (map2 f)) a b)"
  unfolding all_elems_iff
proof (intro ballI)
  fix x r v assume x: "x \<in> set (map2 (map2 (map2 f)) a b)" and r: "r \<in> set x" and v: "v \<in> set r"
  from x obtain p q where pq: "(p, q) \<in> set (zip a b)" and xe: "x = map2 (map2 f) p q" by auto
  from r xe obtain s t where st: "(s, t) \<in> set (zip p q)" and re: "r = map2 f s t" by auto
  from v re obtain c d where cd: "(c, d) \<in> set (zip s t)" and ve: "v = f c d" by auto
  from pq st cd have "P c"
    using assms(1) by (auto simp: all_elems_iff dest!: set_zip_leftD)
  moreover from pq st cd have "Q d"
    using assms(2) by (auto simp: all_elems_iff dest!: set_zip_rightD)
  ultimately show "R v" using assms(3) ve by simp
qed

lemma bop_eq:
  assumes "is_tensor na ha wa a" and "is_tensor nb hb wb b"
    and "0 < na" "0 < nb" "0 < ha" "0 < hb"
    and "bdim na nb = Some n" and "bdim ha hb = Some h" and "bdim wa wb = Some w"
  shows "bop f a b = Inr (map2 (map2 (map2 f)) (expand3 n h w a) (expand3 n h w b))"
proof -
  from assms have "length a = na" "length b = nb" "theight a = ha" "theight b = hb"
      "twidth a = wa" "twidth b = wb"
    by (simp_all add: is_tensor_length theight_tensor twidth_tensor)
  with assms show ?thesis by (simp add: bop_def)
qed

lemma bop_shape:
  assumes "is_tensor na ha wa a" and "is_tensor nb hb wb b"
    and "0 < na" "0 < nb" "0 < ha" "0 < hb"
    and "bdim na nb = Some n" and "bdim ha hb = Some h" and "bdim wa wb = Some w"
  shows "\<exists>t. bop f a b = Inr t \<and> is_tensor n h w t"
proof -
  from assms(7-9) have d: "na = n \<or> na = 1" "nb = n \<or> nb = 1" "ha = h \<or> ha = 1"
      "hb = h \<or> hb = 1" "wa = w \<or> wa = 1" "wb = w \<or> wb = 1"
    by (auto dest: bdim_Some)
  have "is_tensor n h w (expand3 n h w a)" "is_tensor n h w (expand3 n h w b)"
    using assms(1,2) d by (auto intro: expand3_shape)
  then have "is_tensor n h w (map2 (map2 (map2 f)) (expand3 n h w a) (expand3 n h w b))"
    by (rule tzip_shape)
  with bop_eq [OF assms, of f] show ?thesis by simp
qed

lemma bop_elems:
  assumes "is_tensor na ha wa a" and "is_tensor nb hb wb b"
    and "0 < na" "0 < nb" "0 < ha" "0 < hb"
    and "bop f a b = Inr t"
    and "all_elems P a" and "all_elems Q b" and "\<And>x y. P x \<Longrightarrow> Q y \<Longrightarrow> R (f x y)"
  shows "all_elems R t"
proof -
  from assms have l: "length a = na" "length b = nb" "theight a = ha" "theight b = hb"
      "twidth a = wa" "twidth b = wb"
    by (simp_all add: is_tensor_length theight_tensor twidth_tensor)
  from assms(7) obtain n h w where b: "bdim na nb = Some n" "bdim ha hb = Some h" "bdim wa wb = Some w"
    and t: "t = map2 (map2 (map2 f)) (expand3 n h w a) (expand3 n h w b)"
    by (auto simp: bop_def l split: option.splits)
  from b have d: "na = n \<or> na = 1" "nb = n \<or> nb = 1" "ha = h \<or> ha = 1"
      "hb = h \<or> hb = 1" "wa = w \<or> wa = 1" "wb = w \<or> wb = 1"
    by (auto dest: bdim_Some)
  have "all_elems P (expand3 n h w a)" "all_elems Q (expand3 n h w b)"
    using assms(1,2,8,9) d by (auto intro: all_elems_expand3)
  then show ?thesis unfolding t using assms(10) by (rule tzip_elems)
qed

lemma bdim_same: "bdim n n = Some n"
  by (simp add: bdim_def)

lemma bdim_left: "na = n \<or> na = 1 \<Longrightarrow> bdim na n = Some n"
  by (auto simp: bdim_def)

lemma bdim_right: "na = n \<or> na = 1 \<Longrightarrow> bdim n na = Some n"
  by (auto simp: bdim_def)

lemma has_zero_iff: "has_zero t = (\<not> all_elems (\<lambda>v. v \<noteq> 0) t)"
  by (auto simp: has_zero_def all_elems_def list_ex_iff list_all_iff)

lemma all_elems_tmap: "all_elems P (tmap f t) = all_elems (\<lambda>v. P (f v)) t"
  by (auto simp: all_elems_iff tmap_def)

lemma all_elems_mono: "all_elems P t \<Longrightarrow> (\<And>v. P v \<Longrightarrow> Q v) \<Longrightarrow> all_elems Q t"
  by (auto simp: all_elems_iff)

lemma bdiv_ok:
  assumes "is_tensor na ha wa a" and "is_tensor nb hb wb b"
    and "0 < na" "0 < nb" "0 < ha" "0 < hb"
    and "bdim na nb = Some n" and "bdim ha hb = Some h" and "bdim wa wb = Some w"
    and "all_elems (\<lambda>v. v \<noteq> 0) b"
  shows "\<exists>t. bdiv a b = Inr t \<and> is_tensor n h w t"
  using bop_shape [OF assms(1-9), of "\<lambda>x y. x / y"] assms(10)
  by (auto simp: bdiv_def has_zero_iff)

lemma bdiv_zero:
  assumes "is_tensor na ha wa a" and "is_tensor nb hb wb b"
    and "0 < na" "0 < nb" "0 < ha" "0 < hb"
    and "bdim na nb = Some n" and "bdim ha hb = Some h" and "bdim wa wb = Some w"
    and "has_zero b"
  shows "bdiv a b = Inl NonFinite"
  using bop_shape [OF assms(1-9), of "\<lambda>x y. x / y"] assms(10)
  by (auto simp: bdiv_def)

lemma bdiv_not_NonFinite:
  "all_elems (\<lambda>v. v \<noteq> 0) b \<Longrightarrow> bdiv a b \<noteq> Inl NonFinite"
  by (auto simp: bdiv_def has_zero_iff bop_def split: sum.splits option.splits)

lemma is_tensor_scalar: "is_tensor 1 1 1 [[[r]]]"
  by (simp add: is_tensor_def is_img_def)

lemma X_lhs_pos:
  assumes rho: "is_tensor nr 1 1 (rho::real tensor)" and nr: "nr = n \<or> nr = 1"
    and HtH: "is_tensor n hh ww HtH" and n: "0 < n" and hh: "0 < hh"
    and pos: "all_elems (\<lambda>v. 0 < v) rho" and nonneg: "all_elems (\<lambda>v. 0 \<le> v) HtH"
  shows "\<exists>lhs. bop (+) rho HtH = Inr lhs \<and> is_tensor n hh ww lhs \<and> all_elems (\<lambda>v. 0 < v) lhs"
proof -
  from nr n have nr0: "0 < nr" by auto
  have b: "bdim nr n = Some n" "bdim 1 hh = Some hh" "bdim 1 ww = Some ww"
    using nr by (auto simp: bdim_left)
  from bop_shape [OF rho HtH nr0 n _ hh b, of "(+)"]
  obtain lhs where l: "bop (+) rho HtH = Inr lhs" "is_tensor n hh ww lhs" by auto
  have "all_elems (\<lambda>v. 0 < v) lhs"
    by (rule bop_elems [OF rho HtH nr0 n _ hh l(1) pos nonneg]) auto
  with l show ?thesis by blast
qed

lemma solve_tail_shape:
  assumes "is_tensor n (2 * h) (2 * w) q"
  shows "is_tensor n h w (crop_half (tmap Re (fftshift (ifft2 q))))"
  by (intro crop_half_shape tmap_shape fftshift_shape ifft2_shape assms)

lemma spectrum_shape:
  assumes "is_tensor n h w d"
  shows "is_tensor n (2 * h) (2 * w) (fft2 (tmap complex_of_real (ifftshift (pad_double d))))"
  by (intro fft2_shape tmap_shape ifftshift_shape pad_double_shape assms)

lemma X_forward_ok:
  assumes Y: "is_tensor n (2 * h) (2 * w) Y" and Ht: "is_tensor n (2 * h) (2 * w) Ht"
    and HtH: "is_tensor n (2 * h) (2 * w) HtH"
    and z: "is_tensor n h w z" and u: "is_tensor n h w u"
    and rho: "is_tensor nr 1 1 rho" and nr: "nr = n \<or> nr = 1"
    and n: "0 < n" and h: "0 < h"
    and pos: "all_elems (\<lambda>v. 0 < v) rho" and nonneg: "all_elems (\<lambda>v. 0 \<le> v) HtH"
  shows "\<exists>x. X_Update_Gaussian_forward Y Ht HtH z u rho = Inr x \<and> is_tensor n h w x"
proof -
  from nr n have nr0: "0 < nr" by auto
  from h have hh: "0 < 2 * h" by simp
  from X_lhs_pos [OF rho nr HtH n hh pos nonneg]
  obtain lhs where lhs: "bop (+) rho HtH = Inr lhs" "is_tensor n (2 * h) (2 * w) lhs"
      "all_elems (\<lambda>v. 0 < v) lhs" by auto
  from bop_shape [OF Ht Y n n hh hh bdim_same bdim_same bdim_same, of "(*)"]
  obtain hy where hy: "bop (*) Ht Y = Inr hy" "is_tensor n (2 * h) (2 * w) hy" by auto
  have b: "bdim nr n = Some n" "bdim 1 h = Some h" "bdim 1 w = Some w"
    using nr by (auto simp: bdim_left)
  from bop_shape [OF rho z nr0 n _ h b, of "(*)"]
  obtain rz where rz: "bop (*) rho z = Inr rz" "is_tensor n h w rz" by auto
  from bop_shape [OF rz(2) u n n h h bdim_same bdim_same bdim_same, of "(-)"]
  obtain d where d: "bop (-) rz u = Inr d" "is_tensor n h w d" by auto
  let ?F = "fft2 (tmap complex_of_real (ifftshift (pad_double d)))"
  have F: "is_tensor n (2 * h) (2 * w) ?F" using d(2) by (rule spectrum_shape)
  from bop_shape [OF hy(2) F n n hh hh bdim_same bdim_same bdim_same, of "(+)"]
  obtain rhs where rhs: "bop (+) hy ?F = Inr rhs" "is_tensor n (2 * h) (2 * w) rhs" by auto
  have lc: "is_tensor n (2 * h) (2 * w) (tmap complex_of_real lhs)"
    using lhs(2) by (rule tmap_shape)
  have nz: "all_elems (\<lambda>v. v \<noteq> 0) (tmap complex_of_real lhs)"
    using lhs(3) by (auto simp: all_elems_tmap elim: all_elems_mono)
  from bdiv_ok [OF rhs(2) lc n n hh hh bdim_same bdim_same bdim_same nz]
  obtain q where q: "bdiv rhs (tmap complex_of_real lhs) = Inr q" "is_tensor n (2 * h) (2 * w) q"
    by auto
  have "X_Update_Gaussian_forward Y Ht HtH z u rho = Inr (crop_half (tmap Re (fftshift (ifft2 q))))"
    by (simp add: X_Update_Gaussian_forward_def lhs(1) hy(1) rz(1) d(1) rhs(1) q(1))
  with solve_tail_shape [OF q(2)] show ?thesis by simp
qed


lemma bdivx_ok:
  assumes "is_tensor na ha wa a" and "is_tensor nb hb wb b"
    and "0 < na" "0 < nb" "0 < ha" "0 < hb"
    and "bdim na nb = Some n" and "bdim ha hb = Some h" and "bdim wa wb = Some w"
    and "all_elems (\<lambda>d. d \<noteq> Finite 0) b"
  shows "\<exists>t. bop cdivx a b = Inr t \<and> bdivx a b = Inr t \<and> is_tensor n h w t"
  using bop_shape [OF assms(1-9), of cdivx] assms(10)
  by (auto simp: bdivx_def all_elems_def list_ex_iff list_all_iff)

lemma bdivx_total:
  assumes "is_tensor na ha wa a" and "is_tensor nb hb wb b"
    and "0 < na" "0 < nb" "0 < ha" "0 < hb"
    and "bdim na nb = Some n" and "bdim ha hb = Some h" and "bdim wa wb = Some w"
  shows "(\<exists>t. bdivx a b = Inr t \<and> is_tensor n h w t) \<or> bdivx a b = Inl NonFinite"
  using bop_shape [OF assms(1-9), of cdivx]
  by (auto simp: bdivx_def)

lemma init_l2_lhs_ok:
  assumes HtH: "is_tensor n hh ww (HtH::real tensor)" and alpha: "is_tensor na 1 1 alpha"
    and na: "na = n \<or> na = 1" and n: "0 < n" and hh: "0 < hh"
  shows "\<exists>lhs. init_l2_lhs HtH alpha = Inr lhs \<and> is_tensor n hh ww lhs"
proof -
  from na n have na0: "0 < na" by auto
  have b: "bdim n na = Some n" "bdim hh 1 = Some hh" "bdim ww 1 = Some ww"
    using na by (auto simp: bdim_right)
  from bop_shape [OF HtH tmap_shape [OF alpha] n na0 hh _ b, of xadd recip]
  show ?thesis by (simp add: init_l2_lhs_def)
qed

lemma init_l2_lhs_elems:
  assumes HtH: "is_tensor n hh ww (HtH::real tensor)" and alpha: "is_tensor na 1 1 alpha"
    and na: "na = n \<or> na = 1" and n: "0 < n" and hh: "0 < hh"
    and l: "init_l2_lhs HtH alpha = Inr lhs"
    and P: "all_elems P HtH" and Q: "all_elems Q alpha"
    and R: "\<And>v a. P v \<Longrightarrow> Q a \<Longrightarrow> R (xadd v (recip a))"
  shows "all_elems R lhs"
proof -
  from na n have na0: "0 < na" by auto
  have q: "all_elems (\<lambda>d. \<exists>a. Q a \<and> d = recip a) (tmap recip alpha)"
    unfolding all_elems_tmap using Q by (rule all_elems_mono) blast
  from l have bo: "bop xadd HtH (tmap recip alpha) = Inr lhs" by (simp add: init_l2_lhs_def)
  show ?thesis
    by (rule bop_elems [OF HtH tmap_shape [OF alpha] n na0 hh _ bo P q]) (auto intro: R)
qed

lemma init_l2_eval:
  assumes Y: "is_tensor n (2 * h) (2 * w) Y" and Ht: "is_tensor n (2 * h) (2 * w) Ht"
    and lhs: "init_l2_lhs HtH alpha = Inr lhs" and sh: "is_tensor n (2 * h) (2 * w) lhs"
    and n: "0 < n" and h: "0 < h"
    and nz: "all_elems (\<lambda>d. d \<noteq> Finite 0) lhs"
  shows "\<exists>rhs q. bop (*) Y Ht = Inr rhs \<and> is_tensor n (2 * h) (2 * w) rhs
           \<and> bop cdivx rhs lhs = Inr q \<and> is_tensor n (2 * h) (2 * w) q
           \<and> init_l2 Y Ht HtH alpha = Inr (crop_half (tmap Re (fftshift (ifft2 q))))"
proof -
  from h have hh: "0 < 2 * h" by simp
  from bop_shape [OF Y Ht n n hh hh bdim_same bdim_same bdim_same, of "(*)"]
  obtain rhs where rhs: "bop (*) Y Ht = Inr rhs" "is_tensor n (2 * h) (2 * w) rhs" by auto
  from bdivx_ok [OF rhs(2) sh n n hh hh bdim_same bdim_same bdim_same nz]
  obtain q where q: "bop cdivx rhs lhs = Inr q" "bdivx rhs lhs = Inr q"
      "is_tensor n (2 * h) (2 * w) q" by auto
  have "init_l2 Y Ht HtH alpha = Inr (crop_half (tmap Re (fftshift (ifft2 q))))"
    by (simp add: init_l2_def rhs(1) lhs q(2))
  with rhs q show ?thesis by blast
qed


lemma xadd_recip_zero: "xadd v (recip 0) = Infinity"
  by (simp add: xadd_def recip_def)

lemma xadd_recip_nonneg: "0 \<le> v \<Longrightarrow> 0 \<le> a \<Longrightarrow> xadd v (recip a) \<noteq> Finite 0"
proof (cases "a = 0")
  case True
  then show ?thesis by (simp add: xadd_recip_zero)
next
  case False
  assume "0 \<le> v" "0 \<le> a"
  with False have "0 < v + 1 / a" by (simp add: add_nonneg_pos)
  with False show ?thesis by (simp add: xadd_def recip_def)
qed



lemma init_l2_nonneg:
  assumes Y: "is_tensor n (2 * h) (2 * w) Y" and Ht: "is_tensor n (2 * h) (2 * w) Ht"
    and HtH: "is_tensor n (2 * h) (2 * w) HtH"
    and alpha: "is_tensor na 1 1 alpha" and na: "na = n \<or> na = 1"
    and n: "0 < n" and h: "0 < h"
    and nn: "all_elems (\<lambda>v. 0 \<le> v) alpha" and nonneg: "all_elems (\<lambda>v. 0 \<le> v) HtH"
  shows "\<exists>x. init_l2 Y Ht HtH alpha = Inr x \<and> is_tensor n h w x"
proof -
  from h have hh: "0 < 2 * h" by simp
  from init_l2_lhs_ok [OF HtH alpha na n hh]
  obtain lhs where l: "init_l2_lhs HtH alpha = Inr lhs" "is_tensor n (2 * h) (2 * w) lhs" by auto
  have nz: "all_elems (\<lambda>d. d \<noteq> Finite 0) lhs"
    by (rule init_l2_lhs_elems [OF HtH alpha na n hh l(1) nonneg nn]) (rule xadd_recip_nonneg)
  from init_l2_eval [OF Y Ht l n h nz]
  obtain q where q: "is_tensor n (2 * h) (2 * w) q"
      "init_l2 Y Ht HtH alpha = Inr (crop_half (tmap Re (fftshift (ifft2 q))))" by auto
  with solve_tail_shape [OF q(1)] show ?thesis by simp
qed

lemma init_l2_ok:
  assumes Y: "is_tensor n (2 * h) (2 * w) Y" and Ht: "is_tensor n (2 * h) (2 * w) Ht"
    and HtH: "is_tensor n (2 * h) (2 * w) HtH"
    and alpha: "is_tensor na 1 1 alpha" and na: "na = n \<or> na = 1"
    and n: "0 < n" and h: "0 < h"
    and pos: "all_elems (\<lambda>v. 0 < v) alpha" and nonneg: "all_elems (\<lambda>v. 0 \<le> v) HtH"
  shows "\<exists>x. init_l2 Y Ht HtH alpha = Inr x \<and> is_tensor n h w x"
proof -
  have "all_elems (\<lambda>v. 0 \<le> v) alpha" using pos by (rule all_elems_mono) simp
  with Y Ht HtH alpha na n h show ?thesis using nonneg by (rule init_l2_nonneg)
qed

lemma init_l2_total:
  assumes Y: "is_tensor n (2 * h) (2 * w) Y" and Ht: "is_tensor n (2 * h) (2 * w) Ht"
    and HtH: "is_tensor n (2 * h) (2 * w) HtH"
    and alpha: "is_tensor na 1 1 alpha" and na: "na = n \<or> na = 1"
    and n: "0 < n" and h: "0 < h"
  shows "(\<exists>x. init_l2 Y Ht HtH alpha = Inr x \<and> is_tensor n h w x)
         \<or> init_l2 Y Ht HtH alpha = Inl NonFinite"
proof -
  from h have hh: "0 < 2 * h" by simp
  from bop_shape [OF Y Ht n n hh hh bdim_same bdim_same bdim_same, of "(*)"]
  obtain rhs where rhs: "bop (*) Y Ht = Inr rhs" "is_tensor n (2 * h) (2 * w) rhs" by auto
  from init_l2_lhs_ok [OF HtH alpha na n hh]
  obtain lhs where l: "init_l2_lhs HtH alpha = Inr lhs" "is_tensor n (2 * h) (2 * w) lhs" by auto
  from bdivx_total [OF rhs(2) l(2) n n hh hh bdim_same bdim_same bdim_same]
  show ?thesis
  proof
    assume "\<exists>q. bdivx rhs lhs = Inr q \<and> is_tensor n (2 * h) (2 * w) q"
    then obtain q where q: "bdivx rhs lhs = Inr q" "is_tensor n (2 * h) (2 * w) q" by auto
    have "init_l2 Y Ht HtH alpha = Inr (crop_half (tmap Re (fftshift (ifft2 q))))"
      by (simp add: init_l2_def rhs(1) l(1) q(1))
    with solve_tail_shape [OF q(2)] show ?thesis by simp
  next
    assume "bdivx rhs lhs = Inl NonFinite"
    then show ?thesis by (simp add: init_l2_def rhs(1) l(1))
  qed
qed







lemma length_pad_list_128:
  "length xs = k \<Longrightarrow>
   length (pad_list ((128 - int k) div 2) ((128 - int k + 1) div 2) z xs) = 128"
  by (auto simp: pad_list_def Let_def) 

lemma set_pad_list: "set (pad_list l r z xs) \<subseteq> insert z (set xs)"
  by (auto simp: pad_list_def Let_def dest: in_set_takeD in_set_dropD)

lemma F_pad_shape:
  assumes x: "is_img kh kw x" and kh: "0 < kh"
  shows "is_img 128 128 (F_pad ((128 - int kw) div 2) ((128 - int kw + 1) div 2)
                               ((128 - int kh) div 2) ((128 - int kh + 1) div 2) x)"
proof (rule is_img_intro)
  from x show "length (F_pad ((128 - int kw) div 2) ((128 - int kw + 1) div 2)
                               ((128 - int kh) div 2) ((128 - int kh + 1) div 2) x) = 128"
    unfolding F_pad_def by (intro length_pad_list_128) (simp add: is_img_def)
next
  fix r
  assume "r \<in> set (F_pad ((128 - int kw) div 2) ((128 - int kw + 1) div 2)
                               ((128 - int kh) div 2) ((128 - int kh + 1) div 2) x)"
  then have "r = replicate (nat (int (width x) + (128 - int kw) div 2 + (128 - int kw + 1) div 2)) 0
      \<or> r \<in> set (map (pad_list ((128 - int kw) div 2) ((128 - int kw + 1) div 2) 0) x)"
    unfolding F_pad_def using set_pad_list by fastforce
  then show "length r = 128"
  proof
    assume r: "r = replicate (nat (int (width x) + (128 - int kw) div 2 + (128 - int kw + 1) div 2)) 0"
    from x kh have w: "width x = kw" by (simp add: is_img_width)
    have "int kw + (128 - int kw) div 2 + (128 - int kw + 1) div 2 = 128" by presburger
    with r w show ?thesis by simp
  next
    assume "r \<in> set (map (pad_list ((128 - int kw) div 2) ((128 - int kw + 1) div 2) 0) x)"
    then obtain q where q: "q \<in> set x"
      and r: "r = pad_list ((128 - int kw) div 2) ((128 - int kw + 1) div 2) 0 q" by auto
    from q x have "length q = kw" by (rule is_img_row [rotated])
    then show ?thesis unfolding r by (rule length_pad_list_128)
  qed
qed

lemma MaxPool2d_shape:
  assumes "is_tensor c h w x"
  shows "is_tensor c (h div 2) (w div 2) (MaxPool2d x)"
  unfolding MaxPool2d_def
proof (rule is_tensor_map [OF assms])
  fix ch :: "real img" assume ch: "is_img h w ch"
  show "is_img (h div 2) (w div 2)
          (map (\<lambda>i. map (\<lambda>j. max (max (ch ! (2 * i) ! (2 * j)) (ch ! (2 * i) ! (2 * j + 1)))
                (max (ch ! (2 * i + 1) ! (2 * j)) (ch ! (2 * i + 1) ! (2 * j + 1))))
          [0..<width ch div 2]) [0..<length ch div 2])"
  proof (cases "h = 0")
    case True
    with ch show ?thesis by (simp add: is_img_def)
  next
    case False
    with ch have "width ch = w" by (simp add: is_img_width)
    with ch show ?thesis by (simp add: is_img_def list_all_iff)
  qed
qed

lemma Conv2d_shape:
  assumes x: "is_tensor cin h w x" and cin: "0 < cin" and h: "0 < h"
    and p: "wf_conv2d cin' cout p"
  shows "is_tensor cout h w (Conv2d p x)"
proof -
  from x cin h have s: "theight x = h" "twidth x = w"
    by (simp_all add: theight_tensor twidth_tensor)
  from p have l: "length (cweight p) = cout" "length (cbias p) = cout"
    by (simp_all add: wf_conv2d_def)
  show ?thesis
    by (rule is_tensor_intro) (auto simp: Conv2d_def s l is_img_def list_all_iff)
qed

lemma BatchNorm2d_shape:
  assumes "is_fbatch n c h w xs"
  shows "is_fbatch n c h w (BatchNorm2d tr p xs)"
proof -
  have "is_tensor c h w (map (\<lambda>k. map (map (f k)) (s ! k)) [0..<length s])"
    if s: "is_tensor c h w s" for s :: fmap and f :: "nat \<Rightarrow> real \<Rightarrow> real"
  proof (rule is_tensor_intro)
    from s show "length (map (\<lambda>k. map (map (f k)) (s ! k)) [0..<length s]) = c"
      by (simp add: is_tensor_def)
  next
    fix x assume "x \<in> set (map (\<lambda>k. map (map (f k)) (s ! k)) [0..<length s])"
    then obtain k where k: "k < length s" and x: "x = map (map (f k)) (s ! k)" by auto
    from k s have "is_img h w (s ! k)" by (simp add: is_tensor_img)
    then show "is_img h w x" unfolding x by (rule tmap_img_shape)
  qed
  with assms show ?thesis
    by (auto simp: is_fbatch_def BatchNorm2d_def Let_def list_all_iff)
qed

lemma ReLU_shape: "is_tensor c h w x \<Longrightarrow> is_tensor c h w (ReLU x)"
  by (simp add: ReLU_def tmap_shape)

lemma is_fbatch_map:
  "is_fbatch n c h w xs \<Longrightarrow> (\<And>s. is_tensor c h w s \<Longrightarrow> is_tensor c' h' w' (g s))
   \<Longrightarrow> is_fbatch n c' h' w' (map g xs)"
  by (auto simp: is_fbatch_def list_all_iff)

lemma DoubleConv_shape:
  assumes xs: "is_fbatch n cin h w xs" and cin: "0 < cin" and h: "0 < h"
    and p: "wf_DoubleConv cin cout p" and cout: "0 < cout"
  shows "is_fbatch n cout h w (DoubleConv_forward tr p xs)"
proof -
  from p have c1: "wf_conv2d cin cout (conv1 p)" and c2: "wf_conv2d cout cout (conv2 p)"
    by (simp_all add: wf_DoubleConv_def)
  have "is_fbatch n cout h w (map (Conv2d (conv1 p)) xs)"
    using xs by (rule is_fbatch_map) (rule Conv2d_shape [OF _ cin h c1])
  then have "is_fbatch n cout h w (BatchNorm2d tr (bn1 p) (map (Conv2d (conv1 p)) xs))"
    by (rule BatchNorm2d_shape)
  then have "is_fbatch n cout h w
      (map ReLU (BatchNorm2d tr (bn1 p) (map (Conv2d (conv1 p)) xs)))"
    by (rule is_fbatch_map) (rule ReLU_shape)
  then have "is_fbatch n cout h w (map (Conv2d (conv2 p))
      (map ReLU (BatchNorm2d tr (bn1 p) (map (Conv2d (conv1 p)) xs))))"
    by (rule is_fbatch_map) (rule Conv2d_shape [OF _ cout h c2])
  then have "is_fbatch n cout h w (BatchNorm2d tr (bn2 p) (map (Conv2d (conv2 p))
      (map ReLU (BatchNorm2d tr (bn1 p) (map (Conv2d (conv1 p)) xs)))))"
    by (rule BatchNorm2d_shape)
  then show ?thesis
    unfolding DoubleConv_forward_def by (rule is_fbatch_map) (rule ReLU_shape)
qed

lemma Down_shape:
  assumes xs: "is_fbatch n cin h w xs" and cin: "0 < cin" and h: "0 < h div 2"
    and p: "wf_DoubleConv cin cout p" and cout: "0 < cout"
  shows "is_fbatch n cout (h div 2) (w div 2) (Down_forward tr p xs)"
  unfolding Down_forward_def
  by (rule DoubleConv_shape [OF is_fbatch_map [OF xs MaxPool2d_shape] cin h p cout])

lemma conv_layers_shape:
  assumes xs: "is_fbatch n 1 128 128 xs" and p: "wf_SubNet p"
  shows "is_fbatch n 16 8 8 (conv_layers tr p xs)"
proof -
  from p have d: "wf_DoubleConv 1 4 (down1 p)" "wf_DoubleConv 4 8 (down2 p)"
      "wf_DoubleConv 8 16 (down3 p)" "wf_DoubleConv 16 16 (down4 p)"
    by (simp_all add: wf_SubNet_def)
  have "is_fbatch n 4 (128 div 2) (128 div 2) (Down_forward tr (down1 p) xs)"
    by (rule Down_shape [OF xs _ _ d(1)]) simp_all
  then have 1: "is_fbatch n 4 64 64 (Down_forward tr (down1 p) xs)" by simp
  have "is_fbatch n 8 (64 div 2) (64 div 2)
      (Down_forward tr (down2 p) (Down_forward tr (down1 p) xs))"
    by (rule Down_shape [OF 1 _ _ d(2)]) simp_all
  then have 2: "is_fbatch n 8 32 32
      (Down_forward tr (down2 p) (Down_forward tr (down1 p) xs))" by simp
  have "is_fbatch n 16 (32 div 2) (32 div 2) (Down_forward tr (down3 p)
      (Down_forward tr (down2 p) (Down_forward tr (down1 p) xs)))"
    by (rule Down_shape [OF 2 _ _ d(3)]) simp_all
  then have 3: "is_fbatch n 16 16 16 (Down_forward tr (down3 p)
      (Down_forward tr (down2 p) (Down_forward tr (down1 p) xs)))" by simp
  have "is_fbatch n 16 (16 div 2) (16 div 2) (Down_forward tr (down4 p)
      (Down_forward tr (down3 p)
      (Down_forward tr (down2 p) (Down_forward tr (down1 p) xs))))"
    by (rule Down_shape [OF 3 _ _ d(4)]) simp_all
  then show ?thesis by (simp add: conv_layers_def)
qed

lemma length_concat_const:
  "(\<And>r. r \<in> set x \<Longrightarrow> length r = w) \<Longrightarrow> length (concat x) = length x * w"
  by (induction x) simp_all

lemma length_flatten:
  assumes "is_tensor c h w s"
  shows "length (concat (concat s)) = c * h * w"
proof -
  have "length (concat s) = c * h"
    using assms by (subst length_concat_const [where w = h]) (auto simp: is_tensor_def is_img_def list_all_iff)
  moreover have "\<And>r. r \<in> set (concat s) \<Longrightarrow> length r = w"
    using assms by (auto simp: is_tensor_def is_img_def list_all_iff)
  ultimately show ?thesis by (subst length_concat_const [where w = w]) auto
qed

lemma length_mlp: "wf_SubNet p \<Longrightarrow> length (mlp p x) = SubNet_n p"
  by (simp add: mlp_def Linear_def wf_SubNet_def wf_linear_def)

lemma Softplus_nonneg: "0 \<le> Softplus v"
  by (simp add: Softplus_def ln_ge_zero add_nonneg_nonneg)

lemma mlp_elems: "v \<in> set (mlp p x) \<Longrightarrow> 0 \<le> v"
  by (auto simp: mlp_def Softplus_nonneg)

lemma SubNet_forward_floor:
  assumes "SubNet_forward tr p ker alpha = Inr t"
  shows "all_elems (\<lambda>v. 1 / 1000000 \<le> v) t"
proof -
  define x where "x = conv_layers tr p (map (\<lambda>c. [c])
      (tmap (\<lambda>c. (cmod c)\<^sup>2) (fft2 (tmap complex_of_real (ifftshift
        (map (F_pad ((128 - int (twidth ker)) div 2) ((128 - int (twidth ker) + 1) div 2)
                    ((128 - int (theight ker)) div 2) ((128 - int (theight ker) + 1) div 2)) ker))))))"
  from assms have t: "t = map (\<lambda>ws. [ws])
      (map2 (\<lambda>s a. map (\<lambda>v. v + 1 / 1000000) (mlp p (concat (concat s) @ [a]))) x
         (concat (concat alpha)))"
    unfolding SubNet_forward_def Let_def x_def [symmetric] by (simp split: if_splits)
  show ?thesis
    unfolding all_elems_iff t
  proof (intro ballI)
    fix y r v
    assume y: "y \<in> set (map (\<lambda>ws. [ws]) (map2 (\<lambda>s a. map (\<lambda>v. v + 1 / 1000000)
        (mlp p (concat (concat s) @ [a]))) x (concat (concat alpha))))"
      and r: "r \<in> set y" and v: "v \<in> set r"
    from y r obtain s a where "r = map (\<lambda>v. v + 1 / 1000000) (mlp p (concat (concat s) @ [a]))"
      by auto
    with v obtain q where "q \<in> set (mlp p (concat (concat s) @ [a]))" and "v = q + 1 / 1000000"
      by auto
    then show "1 / 1000000 \<le> v" using mlp_elems [of q] by simp
  qed
qed

lemma SubNet_forward_ok:
  assumes ker: "is_tensor n kh kw ker" and n: "0 < n" and kh: "0 < kh"
    and alpha: "is_tensor n 1 1 alpha" and p: "wf_SubNet p"
  shows "\<exists>t. SubNet_forward tr p ker alpha = Inr t \<and> is_tensor n 1 (SubNet_n p) t"
proof -
  let ?kp = "map (F_pad ((128 - int (twidth ker)) div 2) ((128 - int (twidth ker) + 1) div 2)
                    ((128 - int (theight ker)) div 2) ((128 - int (theight ker) + 1) div 2)) ker"
  define x where "x = conv_layers tr p (map (\<lambda>c. [c])
      (tmap (\<lambda>c. (cmod c)\<^sup>2) (fft2 (tmap complex_of_real (ifftshift ?kp)))))"
  from ker n kh have s: "theight ker = kh" "twidth ker = kw"
    by (simp_all add: theight_tensor twidth_tensor)
  have "is_tensor n 128 128 ?kp"
    unfolding s by (rule is_tensor_map [OF ker]) (rule F_pad_shape [OF _ kh])
  then have "is_tensor n 128 128 (tmap (\<lambda>c. (cmod c)\<^sup>2) (fft2 (tmap complex_of_real (ifftshift ?kp))))"
    by (intro tmap_shape fft2_shape ifftshift_shape)
  then have "is_fbatch n 1 128 128 (map (\<lambda>c. [c])
      (tmap (\<lambda>c. (cmod c)\<^sup>2) (fft2 (tmap complex_of_real (ifftshift ?kp)))))"
    by (auto simp: is_fbatch_def is_tensor_def list_all_iff)
  then have x: "is_fbatch n 16 8 8 x"
    unfolding x_def using p by (rule conv_layers_shape)
  then have c1: "list_all (\<lambda>s. length (concat (concat s)) = 16 * 8 * 8) x"
    by (auto simp: is_fbatch_def list_all_iff length_flatten)
  from alpha have c2: "length (concat (concat alpha)) = n"
    by (simp add: length_flatten)
  let ?out = "map2 (\<lambda>s a. map (\<lambda>v. v + 1 / 1000000) (mlp p (concat (concat s) @ [a]))) x
         (concat (concat alpha))"
  have c3: "list_all (\<lambda>ws. length ws = SubNet_n p) ?out"
    using p by (auto simp: list_all_iff length_mlp)
  from ker have c2': "length (concat (concat alpha)) = length ker"
    using c2 by (simp add: is_tensor_def)
  have "SubNet_forward tr p ker alpha = Inr (map (\<lambda>ws. [ws]) ?out)"
    unfolding SubNet_forward_def Let_def x_def [symmetric] using c1 c2' c3 by simp
  moreover have "is_tensor n 1 (SubNet_n p) (map (\<lambda>ws. [ws]) ?out)"
  proof (rule is_tensor_intro)
    from x c2 show "length (map (\<lambda>ws. [ws]) ?out) = n" by (simp add: is_fbatch_def)
  next
    fix y assume "y \<in> set (map (\<lambda>ws. [ws]) ?out)"
    then obtain ws where "ws \<in> set ?out" and "y = [ws]" by auto
    with c3 show "is_img 1 (SubNet_n p) y" by (auto simp: is_img_def list_all_iff)
  qed
  ultimately show ?thesis by blast
qed

lemma select_rho_subnet_ok:
  assumes t: "is_tensor n 1 k t" and n: "0 < n" and i: "i < k" and m: "subnet m"
    and pos: "all_elems P t"
  shows "\<exists>rho. select_rho m t i = Inr rho \<and> is_tensor n 1 1 rho \<and> all_elems P rho"
proof -
  from t n have w: "twidth t = k" by (simp add: twidth_tensor)
  have r: "select_rho m t i = Inr (map (\<lambda>s. [[s ! 0 ! i]]) t)"
    using m i w by (simp add: select_rho_def)
  have "is_tensor n 1 1 (map (\<lambda>s. [[s ! 0 ! i]]) t)"
    using t by (auto simp: is_tensor_def is_img_def list_all_iff)
  moreover have "all_elems P (map (\<lambda>s. [[s ! 0 ! i]]) t)"
    unfolding all_elems_iff
  proof (intro ballI)
    fix y r v assume "y \<in> set (map (\<lambda>s. [[s ! 0 ! i]]) t)" "r \<in> set y" "v \<in> set r"
    then obtain s where s: "s \<in> set t" and v: "v = s ! 0 ! i" by auto
    from s t have "is_img 1 k s" by (rule is_tensor_img [rotated])
    then have "length s = 1" "length (s ! 0) = k" by (auto simp: is_img_def list_all_iff)
    with i have "s ! 0 \<in> set s" "s ! 0 ! i \<in> set (s ! 0)" by auto
    with s pos v show "P v" by (auto simp: all_elems_iff)
  qed
  ultimately show ?thesis using r by blast
qed

lemma select_rho_fixed_ok:
  assumes i: "i < length (rho_iters m)" and m: "\<not> subnet m"
  shows "select_rho m t i = Inr [[[rho_iters m ! i]]] \<and> is_tensor 1 1 1 [[[rho_iters m ! i]]]"
  using assms is_tensor_scalar [of "rho_iters m ! i"] by (simp add: select_rho_def)

lemma expand_rows_same: "is_img h w x \<Longrightarrow> expand h (map (expand w) x) = x"
  by (simp add: is_img_def list_all_iff expand_same map_idI)

lemma expand3_same: "is_tensor n h w t \<Longrightarrow> expand3 n h w t = t"
  by (simp add: is_tensor_def list_all_iff expand3_def expand_same expand_rows_same map_idI)

lemma map2_self: "map2 f xs (map g xs) = map (\<lambda>x. f x (g x)) xs"
  by (induction xs) simp_all

lemma bop_same:
  assumes "is_tensor n h w a" and "is_tensor n h w b" and "0 < n" and "0 < h"
  shows "bop f a b = Inr (map2 (map2 (map2 f)) a b)"
  using bop_eq [OF assms(1,2) assms(3,3) assms(4,4) bdim_same bdim_same bdim_same, of f]
  by (simp add: expand3_same assms)

lemma maximum_zeros_like:
  assumes "is_tensor n h w y" and "0 < n" and "0 < h"
  shows "maximum y (zeros_like y) = Inr (tmap (\<lambda>v. max v 0) y)"
proof -
  have "map2 (map2 (map2 max)) y (zeros_like y) = tmap (\<lambda>v. max v 0) y"
    by (simp add: zeros_like_def tmap_def map2_self)
  with bop_same [OF assms(1) zeros_like_shape [OF assms(1)] assms(2,3), of max]
  show ?thesis by (simp add: maximum_def)
qed

lemma zeros_like_tmap: "zeros_like (tmap f t) = zeros_like t"
  by (simp add: zeros_like_def tmap_def comp_def)

lemma forward_setup_total:
  assumes y: "is_tensor n h w y0" and ker: "is_tensor n h w ker"
    and alpha: "is_tensor n 1 1 alpha" and n: "0 < n" and h: "0 < h"
    and m: "wf_model m"
  shows "(\<exists>s. forward_setup m y0 ker alpha = Inr s
           \<and> is_tensor n (2 * h) (2 * w) (s_Y s) \<and> is_tensor n (2 * h) (2 * w) (s_Ht s)
           \<and> is_tensor n (2 * h) (2 * w) (s_HtH s) \<and> all_elems (\<lambda>v. 0 \<le> v) (s_HtH s)
           \<and> is_tensor n h w (s_z s) \<and> is_tensor n h w (s_u s)
           \<and> (subnet m \<longrightarrow> is_tensor n 1 (n_iters m) (s_rho s)
                              \<and> all_elems (\<lambda>v. 1 / 1000000 \<le> v) (s_rho s)))
         \<or> (forward_setup m y0 ker alpha = Inl NonFinite
            \<and> init_l2 (fft2 (tmap complex_of_real (ifftshift (pad_double (tmap (\<lambda>v. max v 0) y0)))))
                 (tmap cnj (fft2 (tmap complex_of_real (ifftshift (pad_double ker)))))
                 (tmap (\<lambda>c. (cmod c)\<^sup>2) (fft2 (tmap complex_of_real (ifftshift (pad_double ker)))))
                 alpha = Inl NonFinite)"
proof -
  let ?y = "tmap (\<lambda>v. max v 0) y0"
  let ?Y = "fft2 (tmap complex_of_real (ifftshift (pad_double ?y)))"
  let ?H = "fft2 (tmap complex_of_real (ifftshift (pad_double ker)))"
  let ?Ht = "tmap cnj ?H"
  let ?HtH = "tmap (\<lambda>c. (cmod c)\<^sup>2) ?H"
  have mx: "maximum y0 (zeros_like y0) = Inr ?y" using y n h by (rule maximum_zeros_like)
  have yc: "is_tensor n h w ?y" using y by (rule tmap_shape)
  have Y: "is_tensor n (2 * h) (2 * w) ?Y" using yc by (rule spectrum_shape)
  have H: "is_tensor n (2 * h) (2 * w) ?H" using ker by (rule spectrum_shape)
  have Ht: "is_tensor n (2 * h) (2 * w) ?Ht" using H by (rule tmap_shape)
  have HtH: "is_tensor n (2 * h) (2 * w) ?HtH" using H by (rule tmap_shape)
  have nonneg: "all_elems (\<lambda>v. 0 \<le> v) ?HtH"
    unfolding all_elems_tmap by (simp add: all_elems_iff)
  have u: "is_tensor n h w (zeros_like ?y)" using yc by (rule zeros_like_shape)
  have "\<exists>t. (if subnet m then SubNet_forward (training m) (init m) ker alpha else Inr []) = Inr t
          \<and> (subnet m \<longrightarrow> is_tensor n 1 (n_iters m) t \<and> all_elems (\<lambda>v. 1 / 1000000 \<le> v) t)"
  proof (cases "subnet m")
    case True
    with m have wf: "wf_SubNet (init m)" and k: "SubNet_n (init m) = n_iters m"
      by (simp_all add: wf_model_def)
    from SubNet_forward_ok [OF ker n h alpha wf, of "training m"]
    obtain t where t: "SubNet_forward (training m) (init m) ker alpha = Inr t"
        "is_tensor n 1 (SubNet_n (init m)) t" by auto
    from t(1) have fl: "all_elems (\<lambda>v. 1 / 1000000 \<le> v) t" by (rule SubNet_forward_floor)
    with t k True show ?thesis by simp
  next
    case False
    then show ?thesis by simp
  qed
  then obtain t where t: "(if subnet m then SubNet_forward (training m) (init m) ker alpha
        else Inr []) = Inr t"
      "subnet m \<longrightarrow> is_tensor n 1 (n_iters m) t \<and> all_elems (\<lambda>v. 1 / 1000000 \<le> v) t" by blast
  from init_l2_total [OF Y Ht HtH alpha _ n h]
  have "(\<exists>z. init_l2 ?Y ?Ht ?HtH alpha = Inr z \<and> is_tensor n h w z)
        \<or> init_l2 ?Y ?Ht ?HtH alpha = Inl NonFinite" by simp
  then show ?thesis
  proof
    assume "\<exists>z. init_l2 ?Y ?Ht ?HtH alpha = Inr z \<and> is_tensor n h w z"
    then obtain z where z: "init_l2 ?Y ?Ht ?HtH alpha = Inr z" "is_tensor n h w z" by auto
    have "forward_setup m y0 ker alpha = Inr \<lparr>s_y = ?y, s_Y = ?Y, s_Ht = ?Ht, s_HtH = ?HtH,
        s_rho = t, s_z = z, s_u = zeros_like ?y\<rparr>"
      unfolding forward_setup_def mx Let_def t(1) by (simp add: z(1))
    then show ?thesis using Y Ht HtH nonneg z(2) u t(2) by simp
  next
    assume e: "init_l2 ?Y ?Ht ?HtH alpha = Inl NonFinite"
    have "forward_setup m y0 ker alpha = Inl NonFinite"
      unfolding forward_setup_def mx Let_def t(1) by (simp add: e)
    with e show ?thesis by simp
  qed
qed

lemma forward_setup_nonneg:
  assumes y: "is_tensor n h w y0" and ker: "is_tensor n h w ker"
    and alpha: "is_tensor n 1 1 alpha" and n: "0 < n" and h: "0 < h"
    and nn: "all_elems (\<lambda>v. 0 \<le> v) alpha" and m: "wf_model m"
  shows "\<exists>s. forward_setup m y0 ker alpha = Inr s
           \<and> is_tensor n (2 * h) (2 * w) (s_Y s) \<and> is_tensor n (2 * h) (2 * w) (s_Ht s)
           \<and> is_tensor n (2 * h) (2 * w) (s_HtH s) \<and> all_elems (\<lambda>v. 0 \<le> v) (s_HtH s)
           \<and> is_tensor n h w (s_z s) \<and> is_tensor n h w (s_u s)
           \<and> (subnet m \<longrightarrow> is_tensor n 1 (n_iters m) (s_rho s)
                              \<and> all_elems (\<lambda>v. 1 / 1000000 \<le> v) (s_rho s))"
proof -
  let ?y = "tmap (\<lambda>v. max v 0) y0"
  let ?Y = "fft2 (tmap complex_of_real (ifftshift (pad_double ?y)))"
  let ?H = "fft2 (tmap complex_of_real (ifftshift (pad_double ker)))"
  let ?Ht = "tmap cnj ?H"
  let ?HtH = "tmap (\<lambda>c. (cmod c)\<^sup>2) ?H"
  have Y: "is_tensor n (2 * h) (2 * w) ?Y" by (intro spectrum_shape tmap_shape y)
  have H: "is_tensor n (2 * h) (2 * w) ?H" using ker by (rule spectrum_shape)
  have Ht: "is_tensor n (2 * h) (2 * w) ?Ht" using H by (rule tmap_shape)
  have HtH: "is_tensor n (2 * h) (2 * w) ?HtH" using H by (rule tmap_shape)
  have nonneg: "all_elems (\<lambda>v. 0 \<le> v) ?HtH"
    unfolding all_elems_tmap by (simp add: all_elems_iff)
  from init_l2_nonneg [OF Y Ht HtH alpha _ n h nn nonneg]
  have "init_l2 ?Y ?Ht ?HtH alpha \<noteq> Inl NonFinite" by auto
  with forward_setup_total [OF y ker alpha n h m] show ?thesis by blast
qed

lemma forward_setup_ok:
  assumes y: "is_tensor n h w y0" and ker: "is_tensor n h w ker"
    and alpha: "is_tensor n 1 1 alpha" and n: "0 < n" and h: "0 < h"
    and pos: "all_elems (\<lambda>v. 0 < v) alpha" and m: "wf_model m"
  shows "\<exists>s. forward_setup m y0 ker alpha = Inr s
           \<and> is_tensor n (2 * h) (2 * w) (s_Y s) \<and> is_tensor n (2 * h) (2 * w) (s_Ht s)
           \<and> is_tensor n (2 * h) (2 * w) (s_HtH s) \<and> all_elems (\<lambda>v. 0 \<le> v) (s_HtH s)
           \<and> is_tensor n h w (s_z s) \<and> is_tensor n h w (s_u s)
           \<and> (subnet m \<longrightarrow> is_tensor n 1 (n_iters m) (s_rho s)
                              \<and> all_elems (\<lambda>v. 1 / 1000000 \<le> v) (s_rho s))"
proof -
  have "all_elems (\<lambda>v. 0 \<le> v) alpha" using pos by (rule all_elems_mono) simp
  with y ker alpha n h show ?thesis using m by (rule forward_setup_nonneg)
qed

lemma admm_step_ok:
  assumes Y: "is_tensor n (2 * h) (2 * w) Y" and Ht: "is_tensor n (2 * h) (2 * w) Ht"
    and HtH: "is_tensor n (2 * h) (2 * w) HtH" and nonneg: "all_elems (\<lambda>v. 0 \<le> v) HtH"
    and z: "is_tensor n h w z" and u: "is_tensor n h w u"
    and n: "0 < n" and h: "0 < h"
    and rho: "subnet m \<longrightarrow> is_tensor n 1 k rho_pred \<and> all_elems (\<lambda>v. 0 < v) rho_pred \<and> i < k"
    and fixed: "\<not> subnet m \<longrightarrow> i < length (rho_iters m) \<and> 0 < rho_iters m ! i"
    and Z: "\<And>x. is_tensor n h w x \<Longrightarrow> is_tensor n h w (Z_net m x)"
  shows "\<exists>x z' u'. admm_step m Y Ht HtH rho_pred i (z, u) = Inr (x, z', u')
           \<and> is_tensor n h w z' \<and> is_tensor n h w u'"
proof -
  have "\<exists>r nr. select_rho m rho_pred i = Inr r \<and> is_tensor nr 1 1 r \<and> (nr = n \<or> nr = 1)
           \<and> all_elems (\<lambda>v. 0 < v) r"
  proof (cases "subnet m")
    case True
    with rho have "is_tensor n 1 k rho_pred" "all_elems (\<lambda>v. 0 < v) rho_pred" "i < k" by auto
    from select_rho_subnet_ok [OF this(1) n this(3) True this(2)] show ?thesis by blast
  next
    case False
    with fixed have i: "i < length (rho_iters m)" and p: "0 < rho_iters m ! i" by auto
    from select_rho_fixed_ok [OF i False, of rho_pred] p show ?thesis
      by (auto simp: all_elems_def)
  qed
  then obtain r nr where r: "select_rho m rho_pred i = Inr r" "is_tensor nr 1 1 r"
      "nr = n \<or> nr = 1" "all_elems (\<lambda>v. 0 < v) r" by blast
  from X_forward_ok [OF Y Ht HtH z u r(2,3) n h r(4) nonneg]
  obtain x where x: "X_Update_Gaussian_forward Y Ht HtH z u r = Inr x" "is_tensor n h w x" by auto
  have zn: "is_tensor n h w (Z_net m x)" using x(2) by (rule Z)
  from bop_shape [OF u x(2) n n h h bdim_same bdim_same bdim_same, of "(+)"]
  obtain ux where ux: "bop (+) u x = Inr ux" "is_tensor n h w ux" by auto
  from bop_shape [OF ux(2) zn n n h h bdim_same bdim_same bdim_same, of "(-)"]
  obtain u' where u': "bop (-) ux (Z_net m x) = Inr u'" "is_tensor n h w u'" by auto
  have "admm_step m Y Ht HtH rho_pred i (z, u) = Inr (x, Z_net m x, u')"
    by (simp add: admm_step_def r(1) x(1) Z_Update_ResUNet_forward_def ux(1) u'(1))
  with zn u'(2) show ?thesis by blast
qed

lemma admm_loop_ok:
  assumes Y: "is_tensor n (2 * h) (2 * w) Y" and Ht: "is_tensor n (2 * h) (2 * w) Ht"
    and HtH: "is_tensor n (2 * h) (2 * w) HtH" and nonneg: "all_elems (\<lambda>v. 0 \<le> v) HtH"
    and n: "0 < n" and h: "0 < h"
    and rho: "subnet m \<longrightarrow> is_tensor n 1 k rho_pred \<and> all_elems (\<lambda>v. 0 < v) rho_pred
                \<and> (\<forall>i\<in>set ns. i < k)"
    and fixed: "\<not> subnet m \<longrightarrow> (\<forall>i\<in>set ns. i < length (rho_iters m) \<and> 0 < rho_iters m ! i)"
    and Z: "\<And>x. is_tensor n h w x \<Longrightarrow> is_tensor n h w (Z_net m x)"
    and z: "is_tensor n h w z" and u: "is_tensor n h w u"
    and xl: "list_all (is_tensor n h w) xl"
  shows "\<exists>z' u' xl'. admm_loop m Y Ht HtH rho_pred ns (z, u, xl) = Inr (z', u', xl')
           \<and> is_tensor n h w z' \<and> is_tensor n h w u' \<and> list_all (is_tensor n h w) xl'
           \<and> length xl' = length xl + length ns"
  using rho fixed z u xl
proof (induction ns arbitrary: z u xl)
  case Nil
  then show ?case by simp
next
  case (Cons i ns)
  have r1: "subnet m \<longrightarrow> is_tensor n 1 k rho_pred \<and> all_elems (\<lambda>v. 0 < v) rho_pred \<and> i < k"
    using Cons.prems(1) by simp
  have f1: "\<not> subnet m \<longrightarrow> i < length (rho_iters m) \<and> 0 < rho_iters m ! i"
    using Cons.prems(2) by simp
  from admm_step_ok [OF Y Ht HtH nonneg Cons.prems(3,4) n h r1 f1 Z]
  obtain x z' u' where s: "admm_step m Y Ht HtH rho_pred i (z, u) = Inr (x, z', u')"
      "is_tensor n h w z'" "is_tensor n h w u'" by blast
  have r2: "subnet m \<longrightarrow> is_tensor n 1 k rho_pred \<and> all_elems (\<lambda>v. 0 < v) rho_pred
                \<and> (\<forall>i\<in>set ns. i < k)"
    using Cons.prems(1) by simp
  have f2: "\<not> subnet m \<longrightarrow> (\<forall>i\<in>set ns. i < length (rho_iters m) \<and> 0 < rho_iters m ! i)"
    using Cons.prems(2) by simp
  have xl2: "list_all (is_tensor n h w) (xl @ [z'])" using Cons.prems(5) s(2) by simp
  from Cons.IH [OF r2 f2 s(2) s(3) xl2] s(1) show ?case by auto
qed

lemma wf_probe_conv2d: "wf_conv2d cin cout (probe_conv2d cin cout)"
  by (auto simp: wf_conv2d_def probe_conv2d_def list_all_iff)

lemma wf_probe_linear: "wf_linear cin cout (probe_linear cin cout)"
  by (simp add: wf_linear_def probe_linear_def list_all_iff)

lemma wf_probe_DoubleConv: "wf_DoubleConv cin cout (probe_DoubleConv cin cout)"
  by (simp add: wf_DoubleConv_def probe_DoubleConv_def wf_probe_conv2d wf_batchnorm2d_def
      default_batchnorm2d_def)

lemma wf_probe_SubNet: "wf_SubNet (probe_SubNet n)"
  by (simp add: wf_SubNet_def probe_SubNet_def wf_probe_DoubleConv wf_probe_linear)

lemma wf_probe_model: "wf_model (probe_model n sub tr)"
  by (simp add: wf_model_def probe_model_def wf_probe_SubNet new_rho_iters_def)
     (simp add: probe_SubNet_def)

lemma probe_model_simps:
  "n_iters (probe_model n sub tr) = n" "subnet (probe_model n sub tr) = sub"
  "training (probe_model n sub tr) = tr" "rho_iters (probe_model n sub tr) = replicate n 1"
  "Z_net (probe_model n sub tr) = (\<lambda>x. x)" "init (probe_model n sub tr) = probe_SubNet n"
  by (simp_all add: probe_model_def new_rho_iters_def)

lemma bop_height_error: "bdim (theight a) (theight b) = None \<Longrightarrow> bop f a b = Inl ShapeError"
  by (simp add: bop_def split: option.splits)

lemma forward_nonneg:
  assumes y: "is_tensor n h w y0" and ker: "is_tensor n h w ker"
    and alpha: "is_tensor n 1 1 alpha" and n: "0 < n" and h: "0 < h"
    and nn: "all_elems (\<lambda>v. 0 \<le> v) alpha" and m: "wf_model m" and N: "0 < n_iters m"
    and fixed: "\<not> subnet m \<longrightarrow> list_all (\<lambda>r. 0 < r) (rho_iters m)"
    and Z: "\<And>x. is_tensor n h w x \<Longrightarrow> is_tensor n h w (Z_net m x)"
  shows "\<exists>out. forward m y0 ker alpha = Inr out \<and> is_tensor n h w out"
proof -
  from forward_setup_nonneg [OF y ker alpha n h nn m]
  obtain s where s: "forward_setup m y0 ker alpha = Inr s"
      "is_tensor n (2 * h) (2 * w) (s_Y s)" "is_tensor n (2 * h) (2 * w) (s_Ht s)"
      "is_tensor n (2 * h) (2 * w) (s_HtH s)" "all_elems (\<lambda>v. 0 \<le> v) (s_HtH s)"
      "is_tensor n h w (s_z s)" "is_tensor n h w (s_u s)"
      "subnet m \<longrightarrow> is_tensor n 1 (n_iters m) (s_rho s)
          \<and> all_elems (\<lambda>v. 1 / 1000000 \<le> v) (s_rho s)"
    by blast
  have r: "subnet m \<longrightarrow> is_tensor n 1 (n_iters m) (s_rho s) \<and> all_elems (\<lambda>v. 0 < v) (s_rho s)
                \<and> (\<forall>i\<in>set [0..<n_iters m]. i < n_iters m)"
    using s(8) by (auto elim: all_elems_mono)
  have f: "\<not> subnet m \<longrightarrow> (\<forall>i\<in>set [0..<n_iters m]. i < length (rho_iters m) \<and> 0 < rho_iters m ! i)"
    using fixed m by (auto simp: wf_model_def list_all_length)
  from admm_loop_ok [OF s(2,3,4,5) n h r f Z s(6,7), of "[]"]
  obtain z' u' xl' where l: "admm_loop m (s_Y s) (s_Ht s) (s_HtH s) (s_rho s) [0..<n_iters m]
        (s_z s, s_u s, []) = Inr (z', u', xl')"
      "list_all (is_tensor n h w) xl'" "length xl' = length ([]::real tensor list) + length [0..<n_iters m]"
    by auto
  from l(3) N have ne: "xl' \<noteq> []" by auto
  then have "last xl' \<in> set xl'" by simp
  with l(2) have "is_tensor n h w (last xl')" by (simp add: list_all_iff)
  moreover have "forward m y0 ker alpha = Inr (last xl')"
    using ne by (simp add: forward_def s(1) l(1))
  ultimately show ?thesis by blast
qed

lemma forward_ok:
  assumes y: "is_tensor n h w y0" and ker: "is_tensor n h w ker"
    and alpha: "is_tensor n 1 1 alpha" and n: "0 < n" and h: "0 < h"
    and pos: "all_elems (\<lambda>v. 0 < v) alpha" and m: "wf_model m" and N: "0 < n_iters m"
    and fixed: "\<not> subnet m \<longrightarrow> list_all (\<lambda>r. 0 < r) (rho_iters m)"
    and Z: "\<And>x. is_tensor n h w x \<Longrightarrow> is_tensor n h w (Z_net m x)"
  shows "\<exists>out. forward m y0 ker alpha = Inr out \<and> is_tensor n h w out"
proof -
  have "all_elems (\<lambda>v. 0 \<le> v) alpha" using pos by (rule all_elems_mono) simp
  with y ker alpha n h show ?thesis using m N fixed Z by (rule forward_nonneg)
qed












lemma admm_loop_snoc:
  "admm_loop m Y Ht HtH rp (ns @ [i]) st =
     (case admm_loop m Y Ht HtH rp ns st of
        Inl e \<Rightarrow> Inl e
      | Inr (z, u, xl) \<Rightarrow>
          (case admm_step m Y Ht HtH rp i (z, u) of
             Inl e \<Rightarrow> Inl e
           | Inr (x, z', u') \<Rightarrow> Inr (z', u', xl @ [z'])))"
proof (induction ns arbitrary: st)
  case Nil
  show ?case by (cases st) (simp split: sum.splits prod.splits)
next
  case (Cons j ns)
  show ?case by (cases st) (simp add: Cons.IH split: sum.splits prod.splits)
qed

lemma example_shapes:
  "is_tensor 1 2 2 [[[1, 2], [3, 4::real]]]" "is_tensor 1 2 2 [[[0, 1], [1, 2::real]]]"
  "is_tensor 1 1 1 [[[1::real]]]" "all_elems (\<lambda>v. 0 < v) [[[1::real]]]"
  "is_tensor 1 1 1 [[[0::real]]]" "all_elems (\<lambda>v. v = 0) [[[0::real]]]"
  by (simp_all add: is_tensor_def is_img_def all_elems_def)

text \<open>
  C6. With \<open>n_iters = 0\<close> the loop body never runs, \<open>x_list\<close> stays empty and
  \<open>x_list[-1]\<close> raises: \<open>forward\<close> does not return the warm start that \<open>init_l2\<close>
  has computed.
\<close>

theorem forward_zero_iterations:
  "forward (probe_model 0 False True) [[[1, 2], [3, 4]]] [[[0, 1], [1, 2]]] [[[1]]] = Inl IndexError"
proof -
  from forward_setup_ok [OF example_shapes(1,2,3) _ _ example_shapes(4) wf_probe_model,
      of 0 False True]
  obtain s where "forward_setup (probe_model 0 False True) [[[1, 2], [3, 4]]] [[[0, 1], [1, 2]]]
      [[[1]]] = Inr s" by auto
  then show ?thesis by (simp add: forward_def probe_model_simps)
qed

lemma forward_no_iterations:
  "n_iters m = 0 \<Longrightarrow> forward_setup m y0 ker alpha = Inr s \<Longrightarrow> forward m y0 ker alpha = Inl IndexError"
  by (simp add: forward_def)

lemma tensor_first:
  assumes "is_tensor n h w t" and "0 < n" and "0 < h" and "0 < w"
  shows "0 < length t \<and> 0 < length (t ! 0) \<and> 0 < length (t ! 0 ! 0)"
proof -
  from assms(1,2) have l: "length t = n" "t ! 0 \<in> set t" by (auto simp: is_tensor_def)
  with assms(1) have i: "is_img h w (t ! 0)" by (auto simp: is_tensor_def list_all_iff)
  with assms(3) have "length (t ! 0) = h" "t ! 0 ! 0 \<in> set (t ! 0)" by (auto simp: is_img_def)
  with i assms(2,3,4) l show ?thesis by (auto simp: is_img_def list_all_iff)
qed

lemma tmap_succ_neq:
  assumes "is_tensor n h w (x::real tensor)" and "0 < n" and "0 < h" and "0 < w"
  shows "tmap (\<lambda>v. v + 1) x \<noteq> x"
proof
  assume e: "tmap (\<lambda>v. v + 1) x = x"
  from tensor_first [OF assms] have "tmap (\<lambda>v. v + 1) x ! 0 ! 0 ! 0 = x ! 0 ! 0 ! 0 + 1"
    by (simp add: tmap_def)
  with e show False by simp
qed

lemma dual_update_neq:
  assumes "is_tensor n h w (u::real tensor)" and "is_tensor n h w x"
    and "0 < n" and "0 < h" and "0 < w"
  shows "map2 (map2 (map2 (-))) (map2 (map2 (map2 (+))) u x) (tmap (\<lambda>v. v + 1) x) \<noteq> u"
    (is "?u' \<noteq> u")
proof
  assume e: "?u' = u"
  from tensor_first [OF assms(1,3,4,5)] tensor_first [OF assms(2,3,4,5)]
  have "?u' ! 0 ! 0 ! 0 = (u ! 0 ! 0 ! 0 + x ! 0 ! 0 ! 0) - (x ! 0 ! 0 ! 0 + 1)"
    by (simp add: tmap_def)
  with e show False by simp
qed

text \<open>
  C1. Iteration \<open>i\<close> of the loop takes the state \<open>(z, u)\<close> left by the iterations before it,
  computes \<open>x\<close> with the closed-form solver from \<open>z\<close>, \<open>u\<close> and the weight of iteration \<open>i\<close>,
  then the new auxiliary estimate \<open>Z_net m x\<close>, then the new dual variable
  \<open>u + x - Z_net m x\<close>; when \<open>i\<close> is the last iteration, \<open>forward\<close> returns the auxiliary
  estimate \<open>Z_net m x\<close>.
\<close>

theorem admm_iteration_order:
  assumes init: "forward_setup m y0 ker alpha = Inr s"
    and prev: "admm_loop m (s_Y s) (s_Ht s) (s_HtH s) (s_rho s) [0..<i] (s_z s, s_u s, [])
                 = Inr (z, u, xl)"
    and rho: "select_rho m (s_rho s) i = Inr rho"
    and x: "X_Update_Gaussian_forward (s_Y s) (s_Ht s) (s_HtH s) z u rho = Inr x"
    and shapes: "is_tensor n h w u" "is_tensor n h w x" "is_tensor n h w (Z_net m x)"
    and n: "0 < n" and h: "0 < h"
  shows "admm_loop m (s_Y s) (s_Ht s) (s_HtH s) (s_rho s) [0..<Suc i] (s_z s, s_u s, [])
           = Inr (Z_net m x,
                  map2 (map2 (map2 (-))) (map2 (map2 (map2 (+))) u x) (Z_net m x),
                  xl @ [Z_net m x])
         \<and> (n_iters m = Suc i \<longrightarrow> forward m y0 ker alpha = Inr (Z_net m x))"
proof -
  let ?ux = "map2 (map2 (map2 (+))) u x"
  have ux: "bop (+) u x = Inr ?ux" using shapes(1,2) n h by (rule bop_same)
  have "is_tensor n h w ?ux" using shapes(1,2) by (rule tzip_shape)
  then have u': "bop (-) ?ux (Z_net m x) = Inr (map2 (map2 (map2 (-))) ?ux (Z_net m x))"
    using shapes(3) n h by (rule bop_same)
  have step: "admm_step m (s_Y s) (s_Ht s) (s_HtH s) (s_rho s) i (z, u)
      = Inr (x, Z_net m x, map2 (map2 (map2 (-))) ?ux (Z_net m x))"
    by (simp add: admm_step_def rho x Z_Update_ResUNet_forward_def ux u' Let_def)
  have loop: "admm_loop m (s_Y s) (s_Ht s) (s_HtH s) (s_rho s) [0..<Suc i] (s_z s, s_u s, [])
      = Inr (Z_net m x, map2 (map2 (map2 (-))) ?ux (Z_net m x), xl @ [Z_net m x])"
    by (simp add: admm_loop_snoc prev step)
  then show ?thesis by (simp add: forward_def init)
qed

theorem admm_iteration_order_witness:
  "\<exists>s z u xl x.
     forward_setup ((probe_model 2 False True)\<lparr>Z_net := tmap (\<lambda>v. v + 1)\<rparr>)
         [[[1, 2], [3, 4]]] [[[0, 1], [1, 2]]] [[[1]]] = Inr s
     \<and> admm_loop ((probe_model 2 False True)\<lparr>Z_net := tmap (\<lambda>v. v + 1)\<rparr>)
         (s_Y s) (s_Ht s) (s_HtH s) (s_rho s) [0..<1] (s_z s, s_u s, []) = Inr (z, u, xl)
     \<and> X_Update_Gaussian_forward (s_Y s) (s_Ht s) (s_HtH s) z u [[[1]]] = Inr x
     \<and> admm_loop ((probe_model 2 False True)\<lparr>Z_net := tmap (\<lambda>v. v + 1)\<rparr>)
         (s_Y s) (s_Ht s) (s_HtH s) (s_rho s) [0..<Suc 1] (s_z s, s_u s, [])
       = Inr (tmap (\<lambda>v. v + 1) x,
              map2 (map2 (map2 (-))) (map2 (map2 (map2 (+))) u x) (tmap (\<lambda>v. v + 1) x),
              xl @ [tmap (\<lambda>v. v + 1) x])
     \<and> forward ((probe_model 2 False True)\<lparr>Z_net := tmap (\<lambda>v. v + 1)\<rparr>)
         [[[1, 2], [3, 4]]] [[[0, 1], [1, 2]]] [[[1]]] = Inr (tmap (\<lambda>v. v + 1) x)
     \<and> tmap (\<lambda>v. v + 1) x \<noteq> x
     \<and> map2 (map2 (map2 (-))) (map2 (map2 (map2 (+))) u x) (tmap (\<lambda>v. v + 1) x) \<noteq> u
     \<and> length xl = 1"
proof -
  let ?m = "(probe_model 2 False True)\<lparr>Z_net := tmap (\<lambda>v. v + 1)\<rparr>"
  have m: "n_iters ?m = 2" "\<not> subnet ?m" "rho_iters ?m = [1, 1]"
      "Z_net ?m = tmap (\<lambda>v. v + 1)"
    by (simp_all add: probe_model_simps numeral_2_eq_2)
  have wf: "wf_model ?m" by (simp add: wf_model_def m)
  from forward_setup_ok [OF example_shapes(1,2,3) _ _ example_shapes(4) wf]
  obtain s where s: "forward_setup ?m [[[1, 2], [3, 4]]] [[[0, 1], [1, 2]]] [[[1]]] = Inr s"
      "is_tensor 1 (2 * 2) (2 * 2) (s_Y s)" "is_tensor 1 (2 * 2) (2 * 2) (s_Ht s)"
      "is_tensor 1 (2 * 2) (2 * 2) (s_HtH s)" "all_elems (\<lambda>v. 0 \<le> v) (s_HtH s)"
      "is_tensor 1 2 2 (s_z s)" "is_tensor 1 2 2 (s_u s)"
    by auto
  have Z: "is_tensor 1 2 2 (Z_net ?m t)" if "is_tensor 1 2 2 t" for t
    unfolding m using that by (rule tmap_shape)
  have r: "subnet ?m \<longrightarrow> is_tensor 1 1 0 (s_rho s) \<and> all_elems (\<lambda>v. 0 < v) (s_rho s)
      \<and> (\<forall>i\<in>set [0..<1]. i < 0)" using m(2) by simp
  have f: "\<not> subnet ?m \<longrightarrow> (\<forall>i\<in>set [0..<1]. i < length (rho_iters ?m) \<and> 0 < rho_iters ?m ! i)"
    by (simp add: m)
  have e: "list_all (is_tensor 1 2 2) ([]::real tensor list)" by simp
  have "\<exists>z u xl. admm_loop ?m (s_Y s) (s_Ht s) (s_HtH s) (s_rho s) [0..<1] (s_z s, s_u s, [])
        = Inr (z, u, xl) \<and> is_tensor 1 2 2 z \<and> is_tensor 1 2 2 u
        \<and> list_all (is_tensor 1 2 2) xl
        \<and> length xl = length ([]::real tensor list) + length [0..<1::nat]"
    by (rule admm_loop_ok [OF s(2,3,4,5) _ _ r f _ s(6,7) e]) (simp_all add: tmap_shape)
  then obtain z u xl where prev: "admm_loop ?m (s_Y s) (s_Ht s) (s_HtH s) (s_rho s) [0..<1]
        (s_z s, s_u s, []) = Inr (z, u, xl)"
      and zu: "is_tensor 1 2 2 z" "is_tensor 1 2 2 u"
      and xl0: "length xl = length ([]::real tensor list) + length [0..<1::nat]" by blast
  from xl0 have xl: "length xl = 1" by simp
  have rho: "select_rho ?m (s_rho s) 1 = Inr [[[1]]]"
    by (simp add: select_rho_def m)
  from X_forward_ok [OF s(2,3,4) zu example_shapes(3) _ _ _ example_shapes(4) s(5)]
  obtain x where x: "X_Update_Gaussian_forward (s_Y s) (s_Ht s) (s_HtH s) z u [[[1]]] = Inr x"
      "is_tensor 1 2 2 x" by auto
  have zx: "is_tensor 1 2 2 (Z_net ?m x)" using x(2) by (rule Z)
  have c: "admm_loop ?m (s_Y s) (s_Ht s) (s_HtH s) (s_rho s) [0..<Suc 1] (s_z s, s_u s, [])
             = Inr (Z_net ?m x,
                    map2 (map2 (map2 (-))) (map2 (map2 (map2 (+))) u x) (Z_net ?m x),
                    xl @ [Z_net ?m x])
           \<and> (n_iters ?m = Suc 1 \<longrightarrow>
                forward ?m [[[1, 2], [3, 4]]] [[[0, 1], [1, 2]]] [[[1]]] = Inr (Z_net ?m x))"
    by (rule admm_iteration_order [OF s(1) prev rho x(1) zu(2) x(2) zx]) simp_all
  have nm: "n_iters ?m = Suc 1" by (simp add: m)
  from c nm have "admm_loop ?m (s_Y s) (s_Ht s) (s_HtH s) (s_rho s) [0..<Suc 1] (s_z s, s_u s, [])
          = Inr (tmap (\<lambda>v. v + 1) x,
                 map2 (map2 (map2 (-))) (map2 (map2 (map2 (+))) u x) (tmap (\<lambda>v. v + 1) x),
                 xl @ [tmap (\<lambda>v. v + 1) x])"
    and "forward ?m [[[1, 2], [3, 4]]] [[[0, 1], [1, 2]]] [[[1]]] = Inr (tmap (\<lambda>v. v + 1) x)"
    unfolding m(4) by blast+
  moreover have "tmap (\<lambda>v. v + 1) x \<noteq> x" using x(2) by (rule tmap_succ_neq) simp_all
  moreover have "map2 (map2 (map2 (-))) (map2 (map2 (map2 (+))) u x) (tmap (\<lambda>v. v + 1) x) \<noteq> u"
    using zu(2) x(2) by (rule dual_update_neq) simp_all
  ultimately show ?thesis using s(1) prev x(1) xl by blast
qed

lemma tmap_tmap: "tmap f (tmap g t) = tmap (\<lambda>v. f (g v)) t"
  by (simp add: tmap_def comp_def)

lemma forward_setup_clamp:
  assumes "is_tensor n h w y0" and "0 < n" and "0 < h"
  shows "forward_setup m (tmap (\<lambda>v. max v 0) y0) ker alpha = forward_setup m y0 ker alpha"
proof -
  let ?y = "tmap (\<lambda>v. max v 0) y0"
  have a: "maximum y0 (zeros_like y0) = Inr ?y" using assms by (rule maximum_zeros_like)
  have "is_tensor n h w ?y" using assms(1) by (rule tmap_shape)
  then have "maximum ?y (zeros_like ?y) = Inr (tmap (\<lambda>v. max v 0) ?y)"
    using assms(2,3) by (rule maximum_zeros_like)
  then have b: "maximum ?y (zeros_like ?y) = Inr ?y" by (simp add: tmap_tmap)
  show ?thesis by (simp add: forward_setup_def a b)
qed

lemma all_elems_zeros_like: "all_elems (\<lambda>v. v = 0) (zeros_like t)"
  unfolding zeros_like_def all_elems_tmap by (simp add: all_elems_iff)

text \<open>
  C9. \<open>forward\<close> reads the observed image only through its clamp to non-negative values,
  taken before the spectrum \<open>Y\<close> is computed: the result on \<open>y\<close> is the result on
  \<open>max(y, 0)\<close>; and the dual variable starts as the zero tensor of the observed shape.
\<close>

theorem forward_clamps_input:
  assumes "is_tensor n h w y0" and "0 < n" and "0 < h"
  shows "forward m y0 ker alpha = forward m (tmap (\<lambda>v. max v 0) y0) ker alpha
         \<and> (\<forall>s. forward_setup m y0 ker alpha = Inr s \<longrightarrow>
               s_Y s = fft2 (tmap complex_of_real (ifftshift (pad_double (tmap (\<lambda>v. max v 0) y0))))
               \<and> s_u s = zeros_like y0 \<and> is_tensor n h w (s_u s)
               \<and> all_elems (\<lambda>v. v = 0) (s_u s))"
proof (intro conjI allI impI)
  show "forward m y0 ker alpha = forward m (tmap (\<lambda>v. max v 0) y0) ker alpha"
    by (simp add: forward_def forward_setup_clamp [OF assms])
next
  fix s assume s: "forward_setup m y0 ker alpha = Inr s"
  have a: "maximum y0 (zeros_like y0) = Inr (tmap (\<lambda>v. max v 0) y0)"
    using assms by (rule maximum_zeros_like)
  from s show "s_Y s = fft2 (tmap complex_of_real (ifftshift (pad_double (tmap (\<lambda>v. max v 0) y0))))"
    by (auto simp: forward_setup_def a Let_def split: sum.splits)
  from s show u: "s_u s = zeros_like y0"
    by (auto simp: forward_setup_def a Let_def zeros_like_tmap split: sum.splits)
  show "is_tensor n h w (s_u s)" unfolding u using assms(1) by (rule zeros_like_shape)
  show "all_elems (\<lambda>v. v = 0) (s_u s)" unfolding u by (rule all_elems_zeros_like)
qed

theorem forward_clamps_input_witness:
  "forward (probe_model 1 False True) [[[- 1, 2], [3, - 4]]] [[[0, 1], [1, 2]]] [[[1]]]
     = forward (probe_model 1 False True) [[[0, 2], [3, 0]]] [[[0, 1], [1, 2]]] [[[1]]]
   \<and> (\<exists>s. forward_setup (probe_model 1 False True) [[[- 1, 2], [3, - 4]]] [[[0, 1], [1, 2]]] [[[1]]]
            = Inr s \<and> s_u s = [[[0, 0], [0, 0]]])"
proof -
  let ?m = "probe_model 1 False True"
  have y: "is_tensor 1 2 2 [[[- 1, 2], [3, - 4::real]]]" by (simp add: is_tensor_def is_img_def)
  from forward_setup_ok [OF y example_shapes(2,3) _ _ example_shapes(4) wf_probe_model,
      of 1 False True]
  obtain s where s: "forward_setup ?m [[[- 1, 2], [3, - 4]]] [[[0, 1], [1, 2]]] [[[1]]] = Inr s"
    by auto
  from forward_clamps_input [OF y, of ?m "[[[0, 1], [1, 2]]]" "[[[1]]]"] s
  show ?thesis by (auto simp: tmap_def zeros_like_def)
qed

text \<open>
  C4. With every entry of \<open>rho\<close> positive, every bin of the denominator \<open>rho + HtH\<close> of
  \<open>X_Update_Gaussian.forward\<close>, where \<open>HtH = |H|^2\<close>, is positive, and the solver returns
  a result: no division has a zero divisor.
\<close>

theorem X_update_denominator_positive:
  assumes "is_tensor n (2 * h) (2 * w) H" and "is_tensor n (2 * h) (2 * w) Y"
    and "is_tensor n h w z" and "is_tensor n h w u"
    and "is_tensor nr 1 1 rho" and "nr = n \<or> nr = 1" and "0 < n" and "0 < h"
    and "all_elems (\<lambda>v. 0 < v) rho"
  shows "(\<exists>lhs. bop (+) rho (tmap (\<lambda>c. (cmod c)\<^sup>2) H) = Inr lhs \<and> all_elems (\<lambda>v. 0 < v) lhs)
         \<and> (\<exists>x. X_Update_Gaussian_forward Y (tmap cnj H) (tmap (\<lambda>c. (cmod c)\<^sup>2) H) z u rho = Inr x)"
proof -
  let ?HtH = "tmap (\<lambda>c. (cmod c)\<^sup>2) H"
  have HtH: "is_tensor n (2 * h) (2 * w) ?HtH" using assms(1) by (rule tmap_shape)
  have Ht: "is_tensor n (2 * h) (2 * w) (tmap cnj H)" using assms(1) by (rule tmap_shape)
  have nonneg: "all_elems (\<lambda>v. 0 \<le> v) ?HtH"
    unfolding all_elems_tmap by (simp add: all_elems_iff)
  from assms(8) have hh: "0 < 2 * h" by simp
  from X_lhs_pos [OF assms(5,6) HtH assms(7) hh assms(9) nonneg]
  have "\<exists>lhs. bop (+) rho ?HtH = Inr lhs \<and> all_elems (\<lambda>v. 0 < v) lhs" by blast
  moreover from X_forward_ok [OF assms(2) Ht HtH assms(3,4,5,6,7,8,9) nonneg]
  have "\<exists>x. X_Update_Gaussian_forward Y (tmap cnj H) ?HtH z u rho = Inr x" by blast
  ultimately show ?thesis by blast
qed

theorem X_update_denominator_positive_witness:
  "(\<exists>lhs. bop (+) [[[1]]] (tmap (\<lambda>c. (cmod c)\<^sup>2) [[[1, 0], [0, \<i>]]]) = Inr lhs
          \<and> all_elems (\<lambda>v. 0 < v) lhs)
   \<and> (\<exists>x. X_Update_Gaussian_forward [[[1, 1], [1, 1]]] (tmap cnj [[[1, 0], [0, \<i>]]])
            (tmap (\<lambda>c. (cmod c)\<^sup>2) [[[1, 0], [0, \<i>]]]) [[[2]]] [[[0]]] [[[1]]] = Inr x)"
  by (rule X_update_denominator_positive [where n = 1 and h = 1 and w = 1 and nr = 1])
     (simp_all add: is_tensor_def is_img_def all_elems_def)

lemma SubNet_forward_rows:
  assumes "SubNet_forward tr p ker alpha = Inr t"
  shows "is_tensor (length t) 1 (SubNet_n p) t"
proof -
  define x where "x = conv_layers tr p (map (\<lambda>c. [c])
      (tmap (\<lambda>c. (cmod c)\<^sup>2) (fft2 (tmap complex_of_real (ifftshift
        (map (F_pad ((128 - int (twidth ker)) div 2) ((128 - int (twidth ker) + 1) div 2)
                    ((128 - int (theight ker)) div 2) ((128 - int (theight ker) + 1) div 2)) ker))))))"
  let ?out = "map2 (\<lambda>s a. map (\<lambda>v. v + 1 / 1000000) (mlp p (concat (concat s) @ [a]))) x
         (concat (concat alpha))"
  from assms have t: "t = map (\<lambda>ws. [ws]) ?out" and l: "list_all (\<lambda>ws. length ws = SubNet_n p) ?out"
    unfolding SubNet_forward_def Let_def x_def [symmetric] by (simp_all split: if_splits)
  show ?thesis
  proof (rule is_tensor_intro [OF refl])
    fix y assume "y \<in> set t"
    with t obtain ws where "ws \<in> set ?out" and "y = [ws]" by auto
    with l show "is_img 1 (SubNet_n p) y" by (auto simp: is_img_def list_all_iff)
  qed
qed

lemma select_rho_subnet_elems:
  assumes m: "subnet m" and t: "is_tensor n 1 k t" and P: "all_elems P t"
    and r: "select_rho m t i = Inr rho"
  shows "all_elems P rho"
proof -
  from r m have i: "i < twidth t" by (simp add: select_rho_def split: if_splits)
  then have "t \<noteq> []" by (auto simp: twidth_def)
  with t have n: "0 < n" by (auto simp: is_tensor_def)
  with t have "twidth t = k" by (simp add: twidth_tensor)
  with i have "i < k" by simp
  from select_rho_subnet_ok [OF t n this m P] r show ?thesis by auto
qed

text \<open>
  C5, amended. Every weight that \<open>SubNet.forward\<close> predicts, and so every weight the
  controller selects from the prediction, is at least the floor 1e-6: it is a Softplus
  output, which is not negative, plus 1e-6. With \<open>subnet\<close> off the weights are the
  constants \<open>rho_iters\<close>, to which no floor is applied: each is 1 as the constructor
  creates them.
\<close>

theorem weight_schedule_floor:
  "(\<forall>t. SubNet_forward tr p ker alpha = Inr t \<longrightarrow>
        all_elems (\<lambda>v. 1 / 1000000 \<le> v) t
        \<and> (\<forall>m i rho. subnet m \<longrightarrow> select_rho m t i = Inr rho \<longrightarrow>
              all_elems (\<lambda>v. 1 / 1000000 \<le> v) rho))
   \<and> (\<forall>m i t. \<not> subnet m \<longrightarrow> rho_iters m = new_rho_iters (n_iters m) \<longrightarrow> i < n_iters m \<longrightarrow>
          select_rho m t i = Inr [[[1]]])"
proof (intro conjI allI impI)
  fix t assume t: "SubNet_forward tr p ker alpha = Inr t"
  then show f: "all_elems (\<lambda>v. 1 / 1000000 \<le> v) t" by (rule SubNet_forward_floor)
  fix m i rho assume "subnet m" and "select_rho m t i = Inr rho"
  from select_rho_subnet_elems [OF this(1) SubNet_forward_rows [OF t] f this(2)]
  show "all_elems (\<lambda>v. 1 / 1000000 \<le> v) rho" .
next
  fix m :: Unrolled_ADMM_Gaussian and i :: nat and t :: "real tensor"
  assume "\<not> subnet m" and "rho_iters m = new_rho_iters (n_iters m)" and "i < n_iters m"
  then show "select_rho m t i = Inr [[[1]]]" by (simp add: select_rho_def new_rho_iters_def)
qed

theorem weight_schedule_floor_witness:
  "\<exists>t rho. SubNet_forward True (probe_SubNet 1) [[[0, 1], [1, 2]]] [[[1]]] = Inr t
      \<and> select_rho (probe_model 1 True True) t 0 = Inr rho
      \<and> all_elems (\<lambda>v. 1 / 1000000 \<le> v) rho
      \<and> select_rho (probe_model 1 False True) [] 0 = Inr [[[1]]]"
proof -
  from SubNet_forward_ok [OF example_shapes(2) _ _ example_shapes(3) wf_probe_SubNet, of True 1]
  obtain t where t: "SubNet_forward True (probe_SubNet 1) [[[0, 1], [1, 2]]] [[[1]]] = Inr t"
      "is_tensor 1 1 (SubNet_n (probe_SubNet 1)) t" by auto
  have k: "SubNet_n (probe_SubNet 1) = 1" by (simp add: probe_SubNet_def)
  have "twidth t = 1" using t(2) unfolding k by (simp add: twidth_tensor)
  then have r: "select_rho (probe_model 1 True True) t 0 = Inr (map (\<lambda>s. [[s ! 0 ! 0]]) t)"
    by (simp add: select_rho_def probe_model_simps)
  note w = weight_schedule_floor [of True "probe_SubNet 1" "[[[0, 1], [1, 2]]]" "[[[1]]]"]
  from w t(1) have "\<forall>m i rho. subnet m \<longrightarrow> select_rho m t i = Inr rho \<longrightarrow>
      all_elems (\<lambda>v. 1 / 1000000 \<le> v) rho" by blast
  with r have a: "all_elems (\<lambda>v. 1 / 1000000 \<le> v) (map (\<lambda>s. [[s ! 0 ! 0]]) t)"
    using probe_model_simps(2) [of 1 True True] by blast
  from w have "\<forall>m i t. \<not> subnet m \<longrightarrow> rho_iters m = new_rho_iters (n_iters m) \<longrightarrow> i < n_iters m \<longrightarrow>
      select_rho m t i = Inr [[[1]]]" by blast
  then have b: "select_rho (probe_model 1 False True) [] 0 = Inr [[[1]]]"
    by (simp add: probe_model_def)
  from t(1) r a b show ?thesis by blast
qed

text \<open>
  A model with \<open>subnet\<close> off whose learned constant has reached 0: the controller selects
  the weight 0, which is not positive.
\<close>

theorem fixed_weight_counterexample:
  "select_rho ((probe_model 1 False True)\<lparr>rho_iters := [0]\<rparr>) [] 0 = Inr [[[0]]]
   \<and> \<not> all_elems (\<lambda>v. 1 / 1000000 \<le> v) [[[0::real]]]"
  by (simp add: select_rho_def probe_model_def all_elems_def)




lemma map2_replicate_left: "length r = w \<Longrightarrow> map2 f (replicate w c) r = map (f c) r"
  by (induction r arbitrary: w) auto

lemma map2_replicate_right: "length r = w \<Longrightarrow> map2 f r (replicate w c) = map (\<lambda>v. f v c) r"
  by (induction r arbitrary: w) auto

lemma map2_index: "length a = n \<Longrightarrow> length b = n \<Longrightarrow> map2 f a b = map (\<lambda>i. f (a ! i) (b ! i)) [0..<n]"
  by (auto intro!: nth_equalityI)

lemma map_index: "length a = n \<Longrightarrow> map f a = map (\<lambda>i. f (a ! i)) [0..<n]"
  by (auto intro!: nth_equalityI)

lemma is_img_11: "is_img 1 1 x \<Longrightarrow> x = [[x ! 0 ! 0]]"
  by (cases x; cases "hd x") (auto simp: is_img_def)

lemma expand_rows_scalar:
  assumes "is_img 1 1 x"
  shows "expand h (map (expand w) x) = replicate h (replicate w (x ! 0 ! 0))"
proof -
  from assms have x: "x = [[x ! 0 ! 0]]" by (rule is_img_11)
  have "expand h (map (expand w) [[x ! 0 ! 0]]) = replicate h (replicate w (x ! 0 ! 0))"
    by (auto simp: expand_def)
  with x show ?thesis by simp
qed

lemma expand3_scalar:
  assumes r: "is_tensor nr 1 1 r" and nr: "nr = n \<or> nr = 1"
  shows "expand3 n h w r = map (\<lambda>b. replicate h (replicate w (scalar_at r b))) [0..<n]"
proof -
  from r have l: "length r = nr" by (rule is_tensor_length)
  have g: "map (\<lambda>x. expand h (map (expand w) x)) r = map (\<lambda>x. replicate h (replicate w (x ! 0 ! 0))) r"
    by (rule map_cong [OF refl]) (rule expand_rows_scalar, rule is_tensor_img [OF r])
  show ?thesis
  proof (cases "nr = n")
    case True
    with l have "expand3 n h w r = map (\<lambda>x. replicate h (replicate w (x ! 0 ! 0))) r"
      by (simp add: expand3_def g expand_same)
    also have "\<dots> = map (\<lambda>b. replicate h (replicate w (r ! b ! 0 ! 0))) [0..<n]"
      using l True by (intro map_index) simp
    also have "\<dots> = map (\<lambda>b. replicate h (replicate w (scalar_at r b))) [0..<n]"
      using l True by (auto simp: scalar_at_def)
    finally show ?thesis .
  next
    case False
    with nr l have l1: "length r = 1" by simp
    then obtain x where x: "r = [x]" by (cases r) auto
    have "x \<in> set r" by (simp add: x)
    with r have "is_img 1 1 x" by (rule is_tensor_img)
    then have e: "expand h (map (expand w) x) = replicate h (replicate w (x ! 0 ! 0))"
      by (rule expand_rows_scalar)
    have "expand3 n h w r = expand n [replicate h (replicate w (x ! 0 ! 0))]"
      by (simp add: expand3_def x e)
    also have "\<dots> = replicate n (replicate h (replicate w (x ! 0 ! 0)))"
      using False l l1 by (simp add: expand_def)
    also have "\<dots> = map (\<lambda>b. replicate h (replicate w (scalar_at r b))) [0..<n]"
      by (simp add: scalar_at_def x map_replicate_const)
    finally show ?thesis .
  qed
qed

lemma bop_index:
  assumes a: "is_tensor n h w a" and b: "is_tensor n h w b" and n: "0 < n" and h: "0 < h"
  shows "bop f a b = Inr (map (\<lambda>i. map2 (map2 f) (a ! i) (b ! i)) [0..<n])"
proof -
  from a b have "map2 (map2 (map2 f)) a b = map (\<lambda>i. map2 (map2 f) (a ! i) (b ! i)) [0..<n]"
    by (intro map2_index) (simp_all add: is_tensor_def)
  with bop_same [OF assms, of f] show ?thesis by simp
qed

lemma tzip_replicate_left:
  assumes "is_img h w x"
  shows "map2 (map2 f) (replicate h (replicate w c)) x = map (map (f c)) x"
proof -
  from assms have "map2 (map2 f) (replicate h (replicate w c)) x = map (map2 f (replicate w c)) x"
    by (simp add: map2_replicate_left is_img_def)
  also have "\<dots> = map (map (f c)) x"
    by (rule map_cong [OF refl]) (simp add: map2_replicate_left is_img_row [OF assms])
  finally show ?thesis .
qed

lemma tzip_replicate_right:
  assumes "is_img h w x"
  shows "map2 (map2 f) x (replicate h (replicate w c)) = map (map (\<lambda>v. f v c)) x"
proof -
  from assms have "map2 (map2 f) x (replicate h (replicate w c))
      = map (\<lambda>r. map2 f r (replicate w c)) x"
    by (simp add: map2_replicate_right is_img_def)
  also have "\<dots> = map (map (\<lambda>v. f v c)) x"
    by (rule map_cong [OF refl]) (simp add: map2_replicate_right is_img_row [OF assms])
  finally show ?thesis .
qed

lemma is_tensor_nth: "is_tensor n h w t \<Longrightarrow> i < n \<Longrightarrow> is_img h w (t ! i)"
  by (simp add: is_tensor_def list_all_length)

lemma bop_scalar_left:
  assumes r: "is_tensor nr 1 1 r" and nr: "nr = n \<or> nr = 1"
    and b: "is_tensor n h w b" and n: "0 < n" and h: "0 < h"
  shows "bop f r b = Inr (map (\<lambda>i. map (map (f (scalar_at r i))) (b ! i)) [0..<n])"
proof -
  from nr n have nr0: "0 < nr" by auto
  have d: "bdim nr n = Some n" "bdim 1 h = Some h" "bdim 1 w = Some w"
    using nr by (auto simp: bdim_left)
  have "bop f r b = Inr (map2 (map2 (map2 f)) (expand3 n h w r) (expand3 n h w b))"
    by (rule bop_eq [OF r b nr0 n _ h d]) simp
  also have "map2 (map2 (map2 f)) (expand3 n h w r) (expand3 n h w b)
      = map (\<lambda>i. map2 (map2 f) (replicate h (replicate w (scalar_at r i))) (b ! i)) [0..<n]"
    unfolding expand3_scalar [OF r nr] expand3_same [OF b]
    by (subst map2_index [where n = n]) (use b in \<open>simp_all add: is_tensor_def\<close>)
  also have "\<dots> = map (\<lambda>i. map (map (f (scalar_at r i))) (b ! i)) [0..<n]"
    by (rule map_cong [OF refl]) (simp add: tzip_replicate_left is_tensor_nth [OF b])
  finally show ?thesis .
qed

lemma bop_scalar_right:
  assumes r: "is_tensor nr 1 1 r" and nr: "nr = n \<or> nr = 1"
    and b: "is_tensor n h w b" and n: "0 < n" and h: "0 < h"
  shows "bop f b r = Inr (map (\<lambda>i. map (map (\<lambda>v. f v (scalar_at r i))) (b ! i)) [0..<n])"
proof -
  from nr n have nr0: "0 < nr" by auto
  have d: "bdim n nr = Some n" "bdim h 1 = Some h" "bdim w 1 = Some w"
    using nr by (auto simp: bdim_right)
  have "bop f b r = Inr (map2 (map2 (map2 f)) (expand3 n h w b) (expand3 n h w r))"
    by (rule bop_eq [OF b r n nr0 h _ d]) simp
  also have "map2 (map2 (map2 f)) (expand3 n h w b) (expand3 n h w r)
      = map (\<lambda>i. map2 (map2 f) (b ! i) (replicate h (replicate w (scalar_at r i)))) [0..<n]"
    unfolding expand3_scalar [OF r nr] expand3_same [OF b]
    by (subst map2_index [where n = n]) (use b in \<open>simp_all add: is_tensor_def\<close>)
  also have "\<dots> = map (\<lambda>i. map (map (\<lambda>v. f v (scalar_at r i))) (b ! i)) [0..<n]"
    by (rule map_cong [OF refl]) (simp add: tzip_replicate_right is_tensor_nth [OF b])
  finally show ?thesis .
qed

lemma map_nth_upt:
  "map (\<lambda>i. F (map G [0..<n] ! i) i) [0..<n] = map (\<lambda>i. F (G i) i) [0..<n]"
  by (rule map_cong) simp_all

lemma bop_index_maps:
  assumes "is_tensor n h w (map A [0..<n])" and "is_tensor n h w (map B [0..<n])"
    and "0 < n" and "0 < h"
  shows "bop f (map A [0..<n]) (map B [0..<n]) = Inr (map (\<lambda>i. map2 (map2 f) (A i) (B i)) [0..<n])"
proof -
  have "map (\<lambda>i. map2 (map2 f) (map A [0..<n] ! i) (map B [0..<n] ! i)) [0..<n]
      = map (\<lambda>i. map2 (map2 f) (A i) (B i)) [0..<n]"
    by (rule map_cong) simp_all
  with bop_index [OF assms, of f] show ?thesis by simp
qed

lemma tensor_as_map: "is_tensor n h w t \<Longrightarrow> t = map (\<lambda>i. t ! i) [0..<n]"
  by (auto simp: is_tensor_def intro!: nth_equalityI)

lemma bop_shape_same:
  assumes "is_tensor n h w a" and "is_tensor n h w b" and "0 < n" and "0 < h"
    and "bop f a b = Inr t"
  shows "is_tensor n h w t"
  using bop_shape [OF assms(1,2) assms(3,3) assms(4,4) bdim_same bdim_same bdim_same, of f] assms(5)
  by auto

lemma bop_shape_scalar:
  assumes "is_tensor nr 1 1 r" and "nr = n \<or> nr = 1" and "is_tensor n h w b"
    and "0 < n" and "0 < h" and "bop f r b = Inr t"
  shows "is_tensor n h w t"
proof -
  from assms(2,4) have nr0: "0 < nr" by auto
  have d: "bdim nr n = Some n" "bdim 1 h = Some h" "bdim 1 w = Some w"
    using assms(2) by (auto simp: bdim_left)
  from bop_shape [OF assms(1,3) nr0 assms(4) _ assms(5) d, of f] assms(6) show ?thesis by auto
qed

lemma X_forward_index:
  assumes Y: "is_tensor n (2 * h) (2 * w) Y" and Ht: "is_tensor n (2 * h) (2 * w) Ht"
    and HtH: "is_tensor n (2 * h) (2 * w) HtH"
    and z: "is_tensor n h w z" and u: "is_tensor n h w u"
    and rho: "is_tensor nr 1 1 rho" and nr: "nr = n \<or> nr = 1"
    and n: "0 < n" and h: "0 < h"
    and nz: "\<And>b v. b < n \<Longrightarrow> v \<in> set (concat (HtH ! b)) \<Longrightarrow> scalar_at rho b + v \<noteq> 0"
  shows "X_Update_Gaussian_forward Y Ht HtH z u rho
         = Inr (map (\<lambda>b. solve_img (Y ! b) (Ht ! b) (HtH ! b) (z ! b) (u ! b) (scalar_at rho b)) [0..<n])"
proof -
  from h have hh: "0 < 2 * h" by simp
  define L where "L = (\<lambda>i. map (map ((+) (scalar_at rho i))) (HtH ! i))"
  define HY where "HY = (\<lambda>i. map2 (map2 (*)) (Ht ! i) (Y ! i))"
  define RZ where "RZ = (\<lambda>i. map (map ((*) (scalar_at rho i))) (z ! i))"
  define D where "D = (\<lambda>i. map2 (map2 (-)) (RZ i) (u ! i))"
  define F where "F = (\<lambda>i. fft2_img (map (map complex_of_real) (ifftshift_img (pad_double_img (D i)))))"
  define R where "R = (\<lambda>i. map2 (map2 (+)) (HY i) (F i))"
  define LC where "LC = (\<lambda>i. map (map complex_of_real) (L i))"
  define Q where "Q = (\<lambda>i. map2 (map2 (/)) (R i) (LC i))"
  have lhs: "bop (+) rho HtH = Inr (map L [0..<n])"
    unfolding L_def using rho nr HtH n hh by (rule bop_scalar_left)
  have Ls: "is_tensor n (2 * h) (2 * w) (map L [0..<n])"
    using rho nr HtH n hh lhs by (rule bop_shape_scalar)
  have hy: "bop (*) Ht Y = Inr (map HY [0..<n])"
    unfolding HY_def using Ht Y n hh by (rule bop_index)
  have HYs: "is_tensor n (2 * h) (2 * w) (map HY [0..<n])"
    using Ht Y n hh hy by (rule bop_shape_same)
  have rz: "bop (*) rho z = Inr (map RZ [0..<n])"
    unfolding RZ_def using rho nr z n h by (rule bop_scalar_left)
  have RZs: "is_tensor n h w (map RZ [0..<n])"
    using rho nr z n h rz by (rule bop_shape_scalar)
  have us: "is_tensor n h w (map (\<lambda>i. u ! i) [0..<n])"
    using tensor_as_map [OF u] u by simp
  have "bop (-) (map RZ [0..<n]) (map (\<lambda>i. u ! i) [0..<n]) = Inr (map D [0..<n])"
    unfolding D_def using RZs us n h by (rule bop_index_maps)
  then have d: "bop (-) (map RZ [0..<n]) u = Inr (map D [0..<n])"
    using tensor_as_map [OF u] by simp
  have Ds: "is_tensor n h w (map D [0..<n])"
    using RZs u n h d by (rule bop_shape_same)
  have Fe: "fft2 (tmap complex_of_real (ifftshift (pad_double (map D [0..<n])))) = map F [0..<n]"
    by (simp add: fft2_def tmap_def ifftshift_def pad_double_def F_def comp_def)
  have Fs: "is_tensor n (2 * h) (2 * w) (map F [0..<n])"
    unfolding Fe [symmetric] using Ds by (rule spectrum_shape)
  have rhs: "bop (+) (map HY [0..<n]) (map F [0..<n]) = Inr (map R [0..<n])"
    unfolding R_def using HYs Fs n hh by (rule bop_index_maps)
  have Rs: "is_tensor n (2 * h) (2 * w) (map R [0..<n])"
    using HYs Fs n hh rhs by (rule bop_shape_same)
  have LCe: "tmap complex_of_real (map L [0..<n]) = map LC [0..<n]"
    by (simp add: tmap_def LC_def comp_def)
  have LCs: "is_tensor n (2 * h) (2 * w) (map LC [0..<n])"
    unfolding LCe [symmetric] using Ls by (rule tmap_shape)
  have q0: "bop (/) (map R [0..<n]) (map LC [0..<n]) = Inr (map Q [0..<n])"
    unfolding Q_def using Rs LCs n hh by (rule bop_index_maps)
  have "all_elems (\<lambda>v. v \<noteq> 0) (map LC [0..<n])"
    unfolding all_elems_iff
  proof (intro ballI)
    fix x r v assume "x \<in> set (map LC [0..<n])" and r: "r \<in> set x" and v: "v \<in> set r"
    then obtain i where i: "i < n" and x: "x = LC i" by auto
    from r x obtain r' where r': "r' \<in> set (HtH ! i)"
      and re: "r = map (\<lambda>v. complex_of_real (scalar_at rho i + v)) r'"
      by (auto simp: LC_def L_def)
    from v re obtain v' where v': "v' \<in> set r'" and ve: "v = complex_of_real (scalar_at rho i + v')"
      by auto
    from r' v' have "v' \<in> set (concat (HtH ! i))" by auto
    with nz [OF i] have "scalar_at rho i + v' \<noteq> 0" by blast
    then have "complex_of_real (scalar_at rho i + v') \<noteq> 0" by (simp only: of_real_eq_0_iff not_False_eq_True)
    with ve show "v \<noteq> 0" by simp
  qed
  then have nzq: "\<not> has_zero (map LC [0..<n])" by (simp add: has_zero_iff)
  have q: "bdiv (map R [0..<n]) (tmap complex_of_real (map L [0..<n])) = Inr (map Q [0..<n])"
    unfolding LCe using q0 nzq by (simp add: bdiv_def)
  have res: "crop_half (tmap Re (fftshift (ifft2 (map Q [0..<n]))))
      = map (\<lambda>i. crop_half_img (map (map Re) (fftshift_img (ifft2_img (Q i))))) [0..<n]"
    by (simp add: crop_half_def tmap_def fftshift_def ifft2_def comp_def)
  have X: "X_Update_Gaussian_forward Y Ht HtH z u rho
      = Inr (map (\<lambda>i. crop_half_img (map (map Re) (fftshift_img (ifft2_img (Q i))))) [0..<n])"
    unfolding X_Update_Gaussian_forward_def by (simp add: lhs hy rz d Fe rhs q res)
  have "crop_half_img (map (map Re) (fftshift_img (ifft2_img (Q i))))
      = solve_img (Y ! i) (Ht ! i) (HtH ! i) (z ! i) (u ! i) (scalar_at rho i)" for i
    by (simp add: solve_img_def Q_def R_def LC_def L_def HY_def F_def D_def RZ_def comp_def)
  with X show ?thesis by simp
qed

lemma rotate_back: "rotate (length xs - length xs div 2) (rotate (length xs div 2) xs) = xs"
  by (simp add: rotate_rotate rotate_id)

lemma fftshift_ifftshift_img: "fftshift_img (ifftshift_img x) = x"
proof -
  have "map (\<lambda>r. rotate (length r - length r div 2) r) (map (\<lambda>r. rotate (length r div 2) r) x) = x"
    by (simp add: comp_def rotate_back map_idI)
  then show ?thesis
    by (simp add: fftshift_img_def ifftshift_img_def rotate_map [symmetric] rotate_back
        del: map_map)
qed

text \<open>
  C2. On inputs of matching shapes whose denominator bins are not zero, the solver
  \<open>X_Update_Gaussian.forward\<close> returns, for every batch element, the solve of the
  specification: the centred half of the real part of the inverse-shifted inverse transform
  of \<open>(Ht * Y + FFT(shift(padDouble(rho * z - u)))) / (rho + HtH)\<close>, where the weight is
  per element or shared. The result is real: the imaginary part of the inverse transform is
  dropped. The inverse shift undoes the shift.
\<close>

theorem X_update_formula:
  assumes "is_tensor n (2 * h) (2 * w) Y" and "is_tensor n (2 * h) (2 * w) Ht"
    and "is_tensor n (2 * h) (2 * w) HtH"
    and "is_tensor n h w z" and "is_tensor n h w u"
    and "is_tensor nr 1 1 rho" and "nr = n \<or> nr = 1"
    and "0 < n" and "0 < h"
    and "\<forall>b<n. \<forall>v\<in>set (concat (HtH ! b)). scalar_at rho b + v \<noteq> 0"
  shows "X_Update_Gaussian_forward Y Ht HtH z u rho
           = Inr (map (\<lambda>b. solve_img (Y ! b) (Ht ! b) (HtH ! b) (z ! b) (u ! b) (scalar_at rho b))
                   [0..<n])
         \<and> fftshift_img (ifftshift_img x) = x"
proof -
  from assms(10) have "\<And>b v. b < n \<Longrightarrow> v \<in> set (concat (HtH ! b)) \<Longrightarrow> scalar_at rho b + v \<noteq> 0"
    by blast
  from X_forward_index [OF assms(1-9) this] fftshift_ifftshift_img [of x] show ?thesis by simp
qed

theorem X_update_formula_witness:
  "X_Update_Gaussian_forward [[[1, 1], [1, 1]]] [[[1, 0], [0, - \<i>]]] [[[1, 0], [0, 1]]]
      [[[2]]] [[[0]]] [[[1]]]
     = Inr [solve_img [[1, 1], [1, 1]] [[1, 0], [0, - \<i>]] [[1, 0], [0, 1]] [[2]] [[0]] 1]
   \<and> fftshift_img (ifftshift_img [[1, 2], [3, 4::real]]) = [[1, 2], [3, 4]]"
  using X_update_formula [where n = 1 and h = 1 and w = 1 and nr = 1
      and Y = "[[[1, 1], [1, 1]]]" and Ht = "[[[1, 0], [0, - \<i>]]]" and HtH = "[[[1, 0], [0, 1]]]"
      and z = "[[[2]]]" and u = "[[[0]]]" and rho = "[[[1]]]" and x = "[[1, 2], [3, 4::real]]"]
  by (simp add: is_tensor_def is_img_def scalar_at_def)

section \<open>The layers on constant feature maps\<close>

lemma const_img_nth: "i < h \<Longrightarrow> j < w \<Longrightarrow> const_img h w c ! i ! j = c"
  by (simp add: const_img_def)

lemma const_img_shape: "is_img h w (const_img h w c)"
  by (simp add: const_img_def is_img_def list_all_iff)

lemma length_const_img: "length (const_img h w c) = h"
  by (simp add: const_img_def)

lemma width_const_img: "0 < h \<Longrightarrow> width (const_img h w c) = w"
  by (cases h) (simp_all add: const_img_def width_def)

lemma const_fmap_shape: "0 < C \<Longrightarrow> is_tensor C h w (const_fmap C h w c)"
  by (auto simp: const_fmap_def is_tensor_def list_all_iff const_img_shape)

lemma const_fmap_nth:
  "k < C \<Longrightarrow> const_fmap C h w c ! k = const_img h w (if k = 0 then c else 0)"
  by (cases k) (simp_all add: const_fmap_def)

lemma MaxPool2d_map:
  "MaxPool2d x = map (\<lambda>ch.
        map (\<lambda>i. map (\<lambda>j.
            max (max (ch ! (2 * i) ! (2 * j)) (ch ! (2 * i) ! (2 * j + 1)))
                (max (ch ! (2 * i + 1) ! (2 * j)) (ch ! (2 * i + 1) ! (2 * j + 1))))
          [0..<width ch div 2]) [0..<length ch div 2]) x"
  by (simp add: MaxPool2d_def)

lemma pool_const_img:
  assumes h: "0 < h"
  shows "map (\<lambda>i. map (\<lambda>j.
            max (max (const_img h w c ! (2 * i) ! (2 * j)) (const_img h w c ! (2 * i) ! (2 * j + 1)))
                (max (const_img h w c ! (2 * i + 1) ! (2 * j)) (const_img h w c ! (2 * i + 1) ! (2 * j + 1))))
          [0..<width (const_img h w c) div 2]) [0..<length (const_img h w c) div 2]
         = const_img (h div 2) (w div 2) (c::real)"
proof -
  have "map (\<lambda>i. map (\<lambda>j.
            max (max (const_img h w c ! (2 * i) ! (2 * j)) (const_img h w c ! (2 * i) ! (2 * j + 1)))
                (max (const_img h w c ! (2 * i + 1) ! (2 * j)) (const_img h w c ! (2 * i + 1) ! (2 * j + 1))))
          [0..<w div 2]) [0..<h div 2] = map (\<lambda>i. map (\<lambda>j. c) [0..<w div 2]) [0..<h div 2]"
    by (intro map_cong refl) (simp add: const_img_nth)
  also have "\<dots> = const_img (h div 2) (w div 2) c"
    by (simp add: const_img_def map_replicate_const)
  finally show ?thesis
    unfolding length_const_img width_const_img [OF h] .
qed

lemma MaxPool2d_const_fmap:
  assumes h: "0 < h"
  shows "MaxPool2d (const_fmap C h w c) = const_fmap C (h div 2) (w div 2) c"
  unfolding MaxPool2d_map const_fmap_def
  by (simp only: list.map map_replicate pool_const_img [OF h])


lemma upt_3: "[0..<3] = [0, 1, 2]"
  by (simp add: upt_rec numeral_3_eq_3)

lemma sum_list_first:
  "(\<Sum>c\<leftarrow>[0..<n]. if c = 0 then a else (0::real)) = (if 0 < n then a else 0)"
  by (induction n) auto

lemma sum_list_zero: "(\<Sum>c\<leftarrow>xs. (0::real)) = 0"
  by (induction xs) auto

lemma probe_kernel_sum:
  assumes "c < cin"
  shows "(\<Sum>di\<leftarrow>[0..<3]. \<Sum>dj\<leftarrow>[0..<3].
            map (\<lambda>c. if k = 0 \<and> c = 0 then [[0, 0, 0], [0, 1, 0], [0, 0, 0]]
                      else [[0, 0, 0], [0, 0, 0], [0, 0, 0::real]]) [0..<cin] ! c ! di ! dj
            * g di dj)
         = (if k = 0 \<and> c = 0 then g 1 1 else 0)"
  using assms by (simp add: upt_3)

lemma center_kernel_sum:
  "(\<Sum>di\<leftarrow>[0..<3]. \<Sum>dj\<leftarrow>[0..<3]. [[0, 0, 0], [0, 1, 0], [0, 0, 0::real]] ! di ! dj * g di dj)
     = g 1 1"
  by (simp add: upt_3)

lemma zero_kernel_sum:
  "(\<Sum>di\<leftarrow>[0..<3]. \<Sum>dj\<leftarrow>[0..<3]. [[0, 0, 0], [0, 0, 0], [0, 0, 0::real]] ! di ! dj * g di dj)
     = 0"
  by (simp add: upt_3)

lemma probe_channel_sum:
  "(\<Sum>c\<leftarrow>[0..<cin]. \<Sum>di\<leftarrow>[0..<3]. \<Sum>dj\<leftarrow>[0..<3].
            map (\<lambda>c. if k = 0 \<and> c = 0 then [[0, 0, 0], [0, 1, 0], [0, 0, 0]]
                      else [[0, 0, 0], [0, 0, 0], [0, 0, 0::real]]) [0..<cin] ! c ! di ! dj
            * g c di dj)
         = (if k = 0 \<and> 0 < cin then g 0 1 1 else 0)"
proof -
  have "(\<Sum>c\<leftarrow>[0..<cin]. \<Sum>di\<leftarrow>[0..<3]. \<Sum>dj\<leftarrow>[0..<3].
            map (\<lambda>c. if k = 0 \<and> c = 0 then [[0, 0, 0], [0, 1, 0], [0, 0, 0]]
                      else [[0, 0, 0], [0, 0, 0], [0, 0, 0::real]]) [0..<cin] ! c ! di ! dj
            * g c di dj)
      = (\<Sum>c\<leftarrow>[0..<cin]. if k = 0 \<and> c = 0 then g c 1 1 else 0)"
    by (rule arg_cong [where f = sum_list], rule map_cong [OF refl])
       (simp add: center_kernel_sum zero_kernel_sum)
  also have "\<dots> = (\<Sum>c\<leftarrow>[0..<cin]. if c = 0 then (if k = 0 then g 0 1 1 else 0) else 0)"
    by (rule arg_cong [where f = sum_list], rule map_cong [OF refl]) simp
  also have "\<dots> = (if k = 0 \<and> 0 < cin then g 0 1 1 else 0)"
    by (simp add: sum_list_first)
  finally show ?thesis .
qed

lemma pix_inside: "is_img h w x \<Longrightarrow> i < h \<Longrightarrow> j < w \<Longrightarrow> pix x (int i) (int j) = x ! i ! j"
  by (cases "h = 0") (simp_all add: pix_def is_img_width is_img_length)

lemma img_as_map: "is_img h w x \<Longrightarrow> map (\<lambda>i. map (\<lambda>j. x ! i ! j) [0..<w]) [0..<h] = x"
  by (auto simp: is_img_def list_all_length intro!: nth_equalityI)

lemma Conv2d_probe:
  assumes x: "is_tensor cin h w x" and cin: "0 < cin" and h: "0 < h" and cout: "0 < cout"
  shows "Conv2d (probe_conv2d cin cout) x = x ! 0 # replicate (cout - 1) (const_img h w 0)"
proof -
  from x cin h have s: "theight x = h" "twidth x = w" "length x = cin"
    by (simp_all add: theight_tensor twidth_tensor is_tensor_length)
  from x cin have x0: "is_img h w (x ! 0)" by (simp add: is_tensor_nth)
  define out where "out = (\<lambda>k::nat. map (\<lambda>i. map (\<lambda>j. if k = 0 then pix (x ! 0) (int i) (int j) else 0)
      [0..<w]) [0..<h])"
  have c: "Conv2d (probe_conv2d cin cout) x = map out [0..<cout]"
    unfolding Conv2d_def probe_conv2d_def out_def
    by (simp add: s zip_replicate2 probe_channel_sum cin)
  have "out 0 = map (\<lambda>i. map (\<lambda>j. x ! 0 ! i ! j) [0..<w]) [0..<h]"
    unfolding out_def by (intro map_cong refl) (simp add: pix_inside [OF x0])
  then have o0: "out 0 = x ! 0" by (simp add: img_as_map [OF x0])
  have "map out [1..<cout] = map (\<lambda>k. const_img h w 0) [1..<cout]"
    by (rule map_cong [OF refl]) (simp add: out_def const_img_def map_replicate_const)
  then have rest: "map out [1..<cout] = replicate (cout - 1) (const_img h w 0)"
    by (simp add: map_replicate_const)
  from cout have "[0..<cout] = 0 # [1..<cout]" by (simp add: upt_conv_Cons)
  with c o0 rest show ?thesis by simp
qed

lemma Conv2d_probe_const:
  assumes "0 < cin" and "0 < h" and "0 < cout"
  shows "Conv2d (probe_conv2d cin cout) (const_fmap cin h w c) = const_fmap cout h w c"
  using Conv2d_probe [OF const_fmap_shape [OF assms(1)] assms, of w c]
  by (simp add: const_fmap_def)


lemma concat_const_img: "concat (const_img h w c) = replicate (h * w) c"
  by (induction h) (simp_all add: const_img_def replicate_add)

lemma tmap_const_img: "map (map f) (const_img h w c) = const_img h w (f c)"
  by (simp add: const_img_def)

lemma const_fmap_as_map:
  "0 < C \<Longrightarrow> const_fmap C h w c = map (\<lambda>k. const_img h w (if k = 0 then c else 0)) [0..<C]"
  by (auto simp: const_fmap_def const_fmap_nth intro!: nth_equalityI simp: nth_Cons')

lemma length_const_fmap: "0 < C \<Longrightarrow> length (const_fmap C h w c) = C"
  by (simp add: const_fmap_def)

lemma mean_pair:
  assumes "0 < n"
  shows "mean (replicate n a @ replicate n b) = (a + b) / 2"
proof -
  have "sum_list (replicate n a @ replicate n b) = real n * (a + b)"
    by (simp add: sum_list_replicate algebra_simps)
  with assms show ?thesis by (simp add: mean_def)
qed

lemma var_pair:
  assumes "0 < n"
  shows "var_biased (replicate n a @ replicate n b) = (a - b)\<^sup>2 / 4"
proof -
  have sq: "(a - (a + b) / 2)\<^sup>2 = (a - b)\<^sup>2 / 4" "(b - (a + b) / 2)\<^sup>2 = (a - b)\<^sup>2 / 4"
    by (simp_all add: power2_eq_square field_simps)
  have "sum_list (map (\<lambda>v. (v - (a + b) / 2)\<^sup>2) (replicate n a @ replicate n b))
      = real n * ((a - b)\<^sup>2 / 4) + real n * ((a - b)\<^sup>2 / 4)"
    by (simp only: map_append map_replicate sum_list_append sum_list_replicate sq)
  also have "\<dots> = real (n + n) * ((a - b)\<^sup>2 / 4)"
    by (simp add: algebra_simps)
  finally have "var_biased (replicate n a @ replicate n b)
      = real (n + n) * ((a - b)\<^sup>2 / 4) / real (n + n)"
    by (simp only: var_biased_def mean_pair [OF assms] length_append length_replicate)
  with assms show ?thesis by simp
qed

lemma mean_single: "0 < n \<Longrightarrow> mean (replicate n a) = a"
  by (simp add: mean_def sum_list_replicate)

lemma var_single: "0 < n \<Longrightarrow> var_biased (replicate n a) = 0"
  by (simp add: var_biased_def mean_single sum_list_replicate)

lemma chan_values_pair:
  assumes "k < C"
  shows "chan_values [const_fmap C h w a, const_fmap C h w b] k
         = replicate (h * w) (if k = 0 then a else 0) @ replicate (h * w) (if k = 0 then b else 0)"
  using assms by (simp add: chan_values_def const_fmap_nth concat_const_img)

lemma chan_values_single:
  assumes "k < C"
  shows "chan_values [const_fmap C h w a] k = replicate (h * w) (if k = 0 then a else 0)"
  using assms by (simp add: chan_values_def const_fmap_nth concat_const_img)

lemma default_bn_nth:
  "k < C \<Longrightarrow> bweight (default_batchnorm2d C) ! k = 1"
  "k < C \<Longrightarrow> bbias (default_batchnorm2d C) ! k = 0"
  by (simp_all add: default_batchnorm2d_def)

lemma BatchNorm2d_train_pair:
  assumes C: "0 < C" and h: "0 < h" and w: "0 < w"
  shows "BatchNorm2d True (default_batchnorm2d C) [const_fmap C h w a, const_fmap C h w b]
         = [const_fmap C h w ((a - b) / 2 / sqrt ((a - b)\<^sup>2 / 4 + 1 / 100000)),
            const_fmap C h w ((b - a) / 2 / sqrt ((a - b)\<^sup>2 / 4 + 1 / 100000))]"
proof -
  from h w have n: "0 < h * w" by simp
  have 1: "map (\<lambda>k. map (map (\<lambda>v. (v - mean (chan_values [const_fmap C h w a, const_fmap C h w b] k))
              / sqrt (var_biased (chan_values [const_fmap C h w a, const_fmap C h w b] k) + 1 / 100000)
              * (bweight (default_batchnorm2d C) ! k) + bbias (default_batchnorm2d C) ! k))
            (const_fmap C h w d ! k)) [0..<C]
      = map (\<lambda>k. const_img h w (if k = 0 then (d - (a + b) / 2) / sqrt ((a - b)\<^sup>2 / 4 + 1 / 100000) else 0))
          [0..<C]" for d
    by (rule map_cong [OF refl])
       (simp add: chan_values_pair mean_pair [OF n] var_pair [OF n] default_bn_nth const_fmap_nth
          tmap_const_img)
  have 2: "(a - (a + b) / 2) = (a - b) / 2" "(b - (a + b) / 2) = (b - a) / 2"
    by (simp_all add: field_simps)
  show ?thesis
    unfolding BatchNorm2d_def Let_def
    by (simp only: list.map length_const_fmap [OF C] if_True 1 2
        const_fmap_as_map [OF C, symmetric])
qed

lemma BatchNorm2d_train_single:
  assumes C: "0 < C" and h: "0 < h" and w: "0 < w"
  shows "BatchNorm2d True (default_batchnorm2d C) [const_fmap C h w a] = [const_fmap C h w 0]"
proof -
  from h w have n: "0 < h * w" by simp
  have 1: "map (\<lambda>k. map (map (\<lambda>v. (v - mean (chan_values [const_fmap C h w a] k))
              / sqrt (var_biased (chan_values [const_fmap C h w a] k) + 1 / 100000)
              * (bweight (default_batchnorm2d C) ! k) + bbias (default_batchnorm2d C) ! k))
            (const_fmap C h w a ! k)) [0..<C]
      = map (\<lambda>k. const_img h w (if k = 0 then 0 else 0)) [0..<C]"
    by (rule map_cong [OF refl])
       (simp add: chan_values_single mean_single [OF n] var_single [OF n] default_bn_nth
          const_fmap_nth tmap_const_img)
  show ?thesis
    unfolding BatchNorm2d_def Let_def
    by (simp only: list.map length_const_fmap [OF C] if_True 1 if_cancel)
       (simp add: const_fmap_as_map [OF C])
qed

lemma ReLU_const_fmap: "ReLU (const_fmap C h w c) = const_fmap C h w (max c 0)"
  by (simp add: ReLU_def tmap_def const_fmap_def tmap_const_img)

end
